theory Spec2Isabelle
  imports Main
begin

section \<open>Channel rate limiting: service/channel_rate_limit.go\<close>

text \<open>
  The module keeps, for every pair (channelId, modelName), a window of request timestamps
  (RPM), a token counter for the current minute (TPM) and a request counter for the current
  day (RPD), behind three operations: Check, Record and GetUsage. Two backends implement
  them: a Redis store and three process-local Go maps. The file comes in two copies, one
  after the other: lines 1-269 are modelled in full, and of lines 270-533 the two Record
  functions, which are where the copies differ in what they do.

  Conventions of this embedding.
  \<^item> Go's \<open>int\<close> and \<open>int64\<close> are HOL's \<open>int\<close>. The sums of the counters wrap
    around as \<open>int64\<close> does (\<open>wrap64\<close>), and the Redis store refuses a sum outside 64
    bits. The arguments of the calls are Go \<open>int\<close>s, so \<open>int64(tokens)\<close> is \<open>tokens\<close>.
    Times are Unix seconds, far inside the range, and their sums and differences
    (\<open>now + 60\<close>, \<open>now - ts\<close>) are the integers'.
  \<^item> \<open>time.Now().Unix()\<close> is the parameter \<open>now\<close> of every operation.
  \<^item> Package variables (the three maps, the Redis handle) are explicit state, passed in
    and returned.
  \<^item> The mutex of the memory backend makes every operation atomic; operations are
    modelled one after the other.
  \<^item> Go's \<open>error\<close> result is an \<open>option\<close>: \<open>None\<close> is \<open>nil\<close>.
\<close>

subsection \<open>Errors\<close>

text \<open>
  Check has three return statements with an error, one per dimension. In lines 1-269 the
  three build the same text; in the second copy of the file (lines 270-533) the text names
  the dimension. The constructor's argument records which of the three statements
  returned.
\<close>

datatype dimension = RPM | TPM | RPD

datatype rl_error = Saturated dimension

text \<open>A slice expression with bounds out of range panics in Go.\<close>

datatype go_panic = SliceBoundsOutOfRange

definition slice_from :: "'a list \<Rightarrow> int \<Rightarrow> go_panic + 'a list" where
  \<comment> \<open>\<open>xs[lo:]\<close>\<close>
  "slice_from xs lo =
     (if lo < 0 \<or> int (length xs) < lo then Inl SliceBoundsOutOfRange
      else Inr (drop (nat lo) xs))"

text \<open>
  The sum of two \<open>int64\<close> values wraps around: \<open>wrap64\<close> maps an integer to the value of
  the same residue modulo \<open>2^64\<close> between \<open>-2^63\<close> and \<open>2^63 - 1\<close>.
\<close>

definition min_int64 :: int where
  "min_int64 = - 9223372036854775808"

definition max_int64 :: int where
  "max_int64 = 9223372036854775807"

definition wrap64 :: "int \<Rightarrow> int" where
  "wrap64 x = (x + 9223372036854775808) mod 18446744073709551616 - 9223372036854775808"

subsection \<open>Keys: \<open>fmt.Sprintf\<close> with \<open>%d\<close> and \<open>%s\<close>\<close>

definition digit_char :: "nat \<Rightarrow> char" where
  "digit_char d = char_of (48 + d)"

function digits :: "nat \<Rightarrow> string" where
  "digits n = (if n < 10 then [digit_char n] else digits (n div 10) @ [digit_char (n mod 10)])"
  by pat_completeness auto
termination
  by (relation "measure id") auto

declare digits.simps [simp del]

definition fmt_d :: "int \<Rightarrow> string" where
  \<comment> \<open>the verb \<open>%d\<close>: decimal, with a minus sign below zero\<close>
  "fmt_d i = (if i < 0 then CHR ''-'' # digits (nat (- i)) else digits (nat i))"

definition ChannelRPMPrefix :: string where
  "ChannelRPMPrefix = ''channel:rpm:''"

definition ChannelTPMPrefix :: string where
  "ChannelTPMPrefix = ''channel:tpm:''"

definition ChannelRPDPrefix :: string where
  "ChannelRPDPrefix = ''channel:rpd:''"

definition memory_key :: "int \<Rightarrow> string \<Rightarrow> string" where
  \<comment> \<open>\<open>fmt.Sprintf("%d:%s", channelId, modelName)\<close>\<close>
  "memory_key channelId modelName = fmt_d channelId @ CHR '':'' # modelName"

definition redis_key :: "string \<Rightarrow> int \<Rightarrow> string \<Rightarrow> string" where
  \<comment> \<open>\<open>fmt.Sprintf("%s%d:%s", prefix, channelId, modelName)\<close>\<close>
  "redis_key prefix channelId modelName = prefix @ fmt_d channelId @ CHR '':'' # modelName"

subsection \<open>The memory backend\<close>

record MemoryCountItem =
  Count :: int
  Expiration :: int

record memory =
  memoryRPMStore :: "string \<rightharpoonup> int list"
  memoryTPMStore :: "string \<rightharpoonup> MemoryCountItem"
  memoryRPDStore :: "string \<rightharpoonup> MemoryCountItem"

text \<open>
  The maps hold pointers to items. Every item is allocated by Record and stored under the
  one key it was made for, in one map, so no two entries share an item and the maps are
  modelled by value.
\<close>

definition empty_memory :: memory where
  "empty_memory =
     \<lparr>memoryRPMStore = Map.empty, memoryTPMStore = Map.empty, memoryRPDStore = Map.empty\<rparr>"

text \<open>The loop \<open>for _, ts := range timestamps { if now-ts < 60 { count++ } }\<close>.\<close>

primrec count_recent :: "int \<Rightarrow> int list \<Rightarrow> int \<Rightarrow> int" where
  "count_recent now [] count = count"
| "count_recent now (ts # timestamps) count =
     count_recent now timestamps (if now - ts < 60 then count + 1 else count)"

text \<open>The loop that appends the timestamps younger than 60 seconds to \<open>newTimestamps\<close>.\<close>

primrec keep_recent :: "int \<Rightarrow> int list \<Rightarrow> int list \<Rightarrow> int list" where
  "keep_recent now [] newTimestamps = newTimestamps"
| "keep_recent now (ts # timestamps) newTimestamps =
     keep_recent now timestamps (if now - ts < 60 then newTimestamps @ [ts] else newTimestamps)"

definition checkChannelRateLimitMemory ::
  "memory \<Rightarrow> int \<Rightarrow> int \<Rightarrow> string \<Rightarrow> int \<Rightarrow> int \<Rightarrow> int \<Rightarrow> rl_error option" where
  "checkChannelRateLimitMemory m now channelId modelName rpm tpm rpd =
     (let key = memory_key channelId modelName in
      if rpm > 0 \<and>
         (case memoryRPMStore m key of
            None \<Rightarrow> False
          | Some timestamps \<Rightarrow> count_recent now timestamps 0 \<ge> rpm)
      then Some (Saturated RPM)
      else if tpm > 0 \<and>
         (case memoryTPMStore m key of
            None \<Rightarrow> False
          | Some item \<Rightarrow> now < Expiration item \<and> Count item \<ge> tpm)
      then Some (Saturated TPM)
      else if rpd > 0 \<and>
         (case memoryRPDStore m key of
            None \<Rightarrow> False
          | Some item \<Rightarrow> now < Expiration item \<and> Count item \<ge> rpd)
      then Some (Saturated RPD)
      else None)"

definition record_count ::
  "MemoryCountItem option \<Rightarrow> int \<Rightarrow> int \<Rightarrow> int \<Rightarrow> MemoryCountItem" where
  \<comment> \<open>the \<open>if !ok || now >= item.Expiration { item = &MemoryCountItem{...} } else
      { item.Count += n }\<close> of the TPM and RPD blocks: \<open>n\<close> is the amount, \<open>window\<close> the
      length of the window in seconds\<close>
  "record_count entry now n window =
     (case entry of
        None \<Rightarrow> \<lparr>Count = n, Expiration = now + window\<rparr>
      | Some item \<Rightarrow>
          if now \<ge> Expiration item then \<lparr>Count = n, Expiration = now + window\<rparr>
          else item\<lparr>Count := wrap64 (Count item + n)\<rparr>)"

definition recordChannelRateLimitMemory ::
  "memory \<Rightarrow> int \<Rightarrow> int \<Rightarrow> string \<Rightarrow> int \<Rightarrow> int \<Rightarrow> int \<Rightarrow> int \<Rightarrow> go_panic + memory" where
  "recordChannelRateLimitMemory m now channelId modelName rpm tpm rpd tokens =
     (let key = memory_key channelId modelName;
          timestamps = (case memoryRPMStore m key of None \<Rightarrow> [] | Some ts \<Rightarrow> ts);
          newTimestamps = keep_recent now timestamps [] @ [now];
          limitRPM = (if rpm \<le> 0 then 1000 else rpm)
      in case (if int (length newTimestamps) > limitRPM
               then slice_from newTimestamps (int (length newTimestamps) - limitRPM)
               else Inr newTimestamps) of
           Inl p \<Rightarrow> Inl p
         | Inr trimmed \<Rightarrow>
             Inr \<lparr>memoryRPMStore = (memoryRPMStore m)(key \<mapsto> trimmed),
                  memoryTPMStore =
                    (if tokens > 0
                     then (memoryTPMStore m)(key \<mapsto> record_count (memoryTPMStore m key) now tokens 60)
                     else memoryTPMStore m),
                  memoryRPDStore =
                    (memoryRPDStore m)(key \<mapsto> record_count (memoryRPDStore m key) now 1 (24 * 3600))\<rparr>)"

definition getChannelRateLimitUsageMemory ::
  "memory \<Rightarrow> int \<Rightarrow> int \<Rightarrow> string \<Rightarrow> int \<times> int \<times> int" where
  "getChannelRateLimitUsageMemory m now channelId modelName =
     (let key = memory_key channelId modelName;
          rpm = (case memoryRPMStore m key of
                   None \<Rightarrow> 0
                 | Some timestamps \<Rightarrow> count_recent now timestamps 0);
          tpm = (case memoryTPMStore m key of
                   None \<Rightarrow> 0
                 | Some item \<Rightarrow> if now < Expiration item then Count item else 0);
          rpd = (case memoryRPDStore m key of
                   None \<Rightarrow> 0
                 | Some item \<Rightarrow> if now < Expiration item then Count item else 0)
      in (rpm, tpm, rpd))"

subsection \<open>The Redis store\<close>

text \<open>
  The Redis backend talks to a server through a client handle (\<open>common.RDB\<close>). The
  server is modelled by the commands the module sends: a key holds a list or an integer,
  with an optional time to live. Integers are stored as they are (the client's
  \<open>Int64()\<close> parses the decimal text the server keeps). The server's clock is the
  caller's, in whole seconds, and one call of the module sees one time: a key whose time to
  live ends at \<open>e\<close> is gone at every \<open>now \<ge> e\<close>.

  A command can fail, as any call over a network can: \<open>fails\<close> says which commands on
  which keys do, during the call at hand. A failed command changes nothing and returns
  an error to the client.
\<close>

datatype redis_value = RList "int list" | RInt int

record redis_entry =
  content :: redis_value
  expire_at :: "int option"

datatype redis_cmd =
  CmdLLen | CmdLIndex | CmdGet | CmdLPush | CmdLTrim | CmdExpire | CmdIncrBy

datatype redis_error =
  Nil \<comment> \<open>the nil reply: no such key, or no such element\<close>
| WrongType \<comment> \<open>the key holds the other kind of value\<close>
| Overflow \<comment> \<open>the increment would leave the signed 64-bit range\<close>
| Unavailable \<comment> \<open>the command did not reach the server, or its reply was lost\<close>

record rdb =
  db :: "string \<rightharpoonup> redis_entry"
  fails :: "redis_cmd \<Rightarrow> string \<Rightarrow> bool"

definition live :: "rdb \<Rightarrow> int \<Rightarrow> string \<Rightarrow> redis_entry option" where
  \<comment> \<open>the entry under a key, unless its time to live has ended\<close>
  "live r now key =
     (case db r key of
        None \<Rightarrow> None
      | Some e \<Rightarrow>
          (case expire_at e of
             None \<Rightarrow> Some e
           | Some t \<Rightarrow> if t \<le> now then None else Some e))"

definition LLen :: "rdb \<Rightarrow> int \<Rightarrow> string \<Rightarrow> redis_error + int" where
  "LLen r now key =
     (if fails r CmdLLen key then Inl Unavailable
      else case live r now key of
             None \<Rightarrow> Inr 0
           | Some e \<Rightarrow>
               (case content e of
                  RList xs \<Rightarrow> Inr (int (length xs))
                | RInt _ \<Rightarrow> Inl WrongType))"

definition LIndex :: "rdb \<Rightarrow> int \<Rightarrow> string \<Rightarrow> int \<Rightarrow> redis_error + int" where
  \<comment> \<open>a negative index counts from the tail: \<open>-1\<close> is the last element\<close>
  "LIndex r now key idx =
     (if fails r CmdLIndex key then Inl Unavailable
      else case live r now key of
             None \<Rightarrow> Inl Nil
           | Some e \<Rightarrow>
               (case content e of
                  RList xs \<Rightarrow>
                    (let i = (if idx < 0 then int (length xs) + idx else idx)
                     in if 0 \<le> i \<and> i < int (length xs) then Inr (xs ! nat i) else Inl Nil)
                | RInt _ \<Rightarrow> Inl WrongType))"

definition Get :: "rdb \<Rightarrow> int \<Rightarrow> string \<Rightarrow> redis_error + int" where
  "Get r now key =
     (if fails r CmdGet key then Inl Unavailable
      else case live r now key of
             None \<Rightarrow> Inl Nil
           | Some e \<Rightarrow>
               (case content e of
                  RInt v \<Rightarrow> Inr v
                | RList _ \<Rightarrow> Inl WrongType))"

definition LPush :: "rdb \<Rightarrow> int \<Rightarrow> string \<Rightarrow> int \<Rightarrow> (redis_error + int) \<times> rdb" where
  \<comment> \<open>pushes at the head; a new list has no time to live, an old one keeps its own\<close>
  "LPush r now key v =
     (if fails r CmdLPush key then (Inl Unavailable, r)
      else case live r now key of
             None \<Rightarrow>
               (Inr 1, r\<lparr>db := (db r)(key \<mapsto> \<lparr>content = RList [v], expire_at = None\<rparr>)\<rparr>)
           | Some e \<Rightarrow>
               (case content e of
                  RList xs \<Rightarrow>
                    (Inr (int (length xs) + 1),
                     r\<lparr>db := (db r)(key \<mapsto> e\<lparr>content := RList (v # xs)\<rparr>)\<rparr>)
                | RInt _ \<Rightarrow> (Inl WrongType, r)))"

definition LTrim :: "rdb \<Rightarrow> int \<Rightarrow> string \<Rightarrow> int \<Rightarrow> int \<Rightarrow> (redis_error + unit) \<times> rdb" where
  \<comment> \<open>keeps the elements from index \<open>start\<close> to index \<open>stop\<close>, both counted; a list left
      empty is removed\<close>
  "LTrim r now key start stop =
     (if fails r CmdLTrim key then (Inl Unavailable, r)
      else case live r now key of
             None \<Rightarrow> (Inr (), r)
           | Some e \<Rightarrow>
               (case content e of
                  RList xs \<Rightarrow>
                    (let llen = int (length xs);
                         start1 = (if start < 0 then llen + start else start);
                         stop1 = (if stop < 0 then llen + stop else stop);
                         start2 = (if start1 < 0 then 0 else start1)
                     in if start2 > stop1 \<or> start2 \<ge> llen
                        then (Inr (), r\<lparr>db := (db r)(key := None)\<rparr>)
                        else (let stop2 = (if stop1 \<ge> llen then llen - 1 else stop1);
                                  kept = take (nat (stop2 - start2 + 1)) (drop (nat start2) xs)
                              in (Inr (), r\<lparr>db := (db r)(key \<mapsto> e\<lparr>content := RList kept\<rparr>)\<rparr>)))
                | RInt _ \<Rightarrow> (Inl WrongType, r)))"

definition Expire :: "rdb \<Rightarrow> int \<Rightarrow> string \<Rightarrow> int \<Rightarrow> (redis_error + bool) \<times> rdb" where
  \<comment> \<open>sets the time to live of a key that exists, in seconds from now\<close>
  "Expire r now key seconds =
     (if fails r CmdExpire key then (Inl Unavailable, r)
      else case live r now key of
             None \<Rightarrow> (Inr False, r)
           | Some e \<Rightarrow>
               (Inr True, r\<lparr>db := (db r)(key \<mapsto> e\<lparr>expire_at := Some (now + seconds)\<rparr>)\<rparr>))"

definition IncrBy :: "rdb \<Rightarrow> int \<Rightarrow> string \<Rightarrow> int \<Rightarrow> (redis_error + int) \<times> rdb" where
  \<comment> \<open>adds \<open>n\<close>, an \<open>int64\<close>, to the integer under the key and returns the sum; a key
      that does not exist counts as 0 and is created with no time to live; a sum outside
      the signed 64-bit range is refused and the integer stays as it is\<close>
  "IncrBy r now key n =
     (if fails r CmdIncrBy key then (Inl Unavailable, r)
      else case live r now key of
             None \<Rightarrow>
               (Inr n, r\<lparr>db := (db r)(key \<mapsto> \<lparr>content = RInt n, expire_at = None\<rparr>)\<rparr>)
           | Some e \<Rightarrow>
               (case content e of
                  RInt v \<Rightarrow>
                    if v + n < min_int64 \<or> max_int64 < v + n then (Inl Overflow, r)
                    else (Inr (v + n), r\<lparr>db := (db r)(key \<mapsto> e\<lparr>content := RInt (v + n)\<rparr>)\<rparr>)
                | RList _ \<Rightarrow> (Inl WrongType, r)))"

definition Incr :: "rdb \<Rightarrow> int \<Rightarrow> string \<Rightarrow> (redis_error + int) \<times> rdb" where
  "Incr r now key = IncrBy r now key 1"

definition result_or_zero :: "redis_error + int \<Rightarrow> int" where
  \<comment> \<open>\<open>val, _ := cmd.Result()\<close>: the client returns the zero value with an error\<close>
  "result_or_zero res = (case res of Inl _ \<Rightarrow> 0 | Inr v \<Rightarrow> v)"

definition healthy :: "rdb \<Rightarrow> bool" where
  \<comment> \<open>no command fails\<close>
  "healthy r = (fails r = (\<lambda>_ _. False))"

definition empty_rdb :: rdb where
  "empty_rdb = \<lparr>db = Map.empty, fails = (\<lambda>_ _. False)\<rparr>"

subsection \<open>The Redis backend\<close>

definition checkChannelRateLimitRedis ::
  "rdb \<Rightarrow> int \<Rightarrow> int \<Rightarrow> string \<Rightarrow> int \<Rightarrow> int \<Rightarrow> int \<Rightarrow> rl_error option" where
  "checkChannelRateLimitRedis r now channelId modelName rpm tpm rpd =
     (if rpm > 0 \<and>
         (let key = redis_key ChannelRPMPrefix channelId modelName in
          case LLen r now key of
            Inl err \<Rightarrow> False
          | Inr lenVal \<Rightarrow>
              lenVal \<ge> rpm \<and>
              (case LIndex r now key (- 1) of
                 Inl err \<Rightarrow> False
               | Inr oldTimeVal \<Rightarrow> now - oldTimeVal < 60))
      then Some (Saturated RPM)
      else if rpd > 0 \<and>
         (let key = redis_key ChannelRPDPrefix channelId modelName in
          case Get r now key of
            Inl err \<Rightarrow> False
          | Inr val \<Rightarrow> val \<ge> rpd)
      then Some (Saturated RPD)
      else if tpm > 0 \<and>
         (let key = redis_key ChannelTPMPrefix channelId modelName in
          case Get r now key of
            Inl err \<Rightarrow> False
          | Inr val \<Rightarrow> val \<ge> tpm)
      then Some (Saturated TPM)
      else None)"

definition recordChannelRateLimitRedis ::
  "rdb \<Rightarrow> int \<Rightarrow> int \<Rightarrow> string \<Rightarrow> int \<Rightarrow> int \<Rightarrow> int \<Rightarrow> int \<Rightarrow> rdb" where
  "recordChannelRateLimitRedis r now channelId modelName rpm tpm rpd tokens =
     (let limitRPM = (if rpm \<le> 0 then 1000 else rpm);
          keyRPM = redis_key ChannelRPMPrefix channelId modelName;
          r1 = snd (LPush r now keyRPM now);
          r2 = snd (LTrim r1 now keyRPM 0 (limitRPM - 1));
          r3 = snd (Expire r2 now keyRPM 60);
          keyRPD = redis_key ChannelRPDPrefix channelId modelName;
          incr = Incr r3 now keyRPD;
          r4 = (if result_or_zero (fst incr) = 1
                then snd (Expire (snd incr) now keyRPD (24 * 3600))
                else snd incr)
      in if tokens > 0
         then (let keyTPM = redis_key ChannelTPMPrefix channelId modelName;
                   incrBy = IncrBy r4 now keyTPM tokens
               in if result_or_zero (fst incrBy) = tokens
                  then snd (Expire (snd incrBy) now keyTPM 60)
                  else snd incrBy)
         else r4)"

definition getChannelRateLimitUsageRedis ::
  "rdb \<Rightarrow> int \<Rightarrow> int \<Rightarrow> string \<Rightarrow> int \<times> int \<times> int" where
  "getChannelRateLimitUsageRedis r now channelId modelName =
     (let rpm = result_or_zero (LLen r now (redis_key ChannelRPMPrefix channelId modelName));
          tpm = result_or_zero (Get r now (redis_key ChannelTPMPrefix channelId modelName));
          rpd = result_or_zero (Get r now (redis_key ChannelRPDPrefix channelId modelName))
      in (rpm, tpm, rpd))"

subsection \<open>The second copy of the file (lines 270-533)\<close>

text \<open>
  The second copy differs from the first in Record: each dimension is recorded only when
  its limit is positive, and the memory backend does not cap the window. Its Check and
  GetUsage are those of the first copy, but for the text of the three errors, which names
  the dimension.
\<close>

definition recordChannelRateLimitRedis_2 ::
  "rdb \<Rightarrow> int \<Rightarrow> int \<Rightarrow> string \<Rightarrow> int \<Rightarrow> int \<Rightarrow> int \<Rightarrow> int \<Rightarrow> rdb" where
  "recordChannelRateLimitRedis_2 r now channelId modelName rpm tpm rpd tokens =
     (let r3 = (if rpm > 0
                then (let key = redis_key ChannelRPMPrefix channelId modelName;
                          r1 = snd (LPush r now key now);
                          r2 = snd (LTrim r1 now key 0 (rpm - 1))
                      in snd (Expire r2 now key 60))
                else r);
          r4 = (if rpd > 0
                then (let key = redis_key ChannelRPDPrefix channelId modelName;
                          incr = Incr r3 now key
                      in if result_or_zero (fst incr) = 1
                         then snd (Expire (snd incr) now key (24 * 3600))
                         else snd incr)
                else r3)
      in if tpm > 0 \<and> tokens > 0
         then (let key = redis_key ChannelTPMPrefix channelId modelName;
                   incrBy = IncrBy r4 now key tokens
               in if result_or_zero (fst incrBy) = tokens
                  then snd (Expire (snd incrBy) now key 60)
                  else snd incrBy)
         else r4)"

definition recordChannelRateLimitMemory_2 ::
  "memory \<Rightarrow> int \<Rightarrow> int \<Rightarrow> string \<Rightarrow> int \<Rightarrow> int \<Rightarrow> int \<Rightarrow> int \<Rightarrow> memory" where
  "recordChannelRateLimitMemory_2 m now channelId modelName rpm tpm rpd tokens =
     (let key = memory_key channelId modelName in
      \<lparr>memoryRPMStore =
         (if rpm > 0
          then (let timestamps = (case memoryRPMStore m key of None \<Rightarrow> [] | Some ts \<Rightarrow> ts)
                in (memoryRPMStore m)(key \<mapsto> keep_recent now timestamps [] @ [now]))
          else memoryRPMStore m),
       memoryTPMStore =
         (if tpm > 0 \<and> tokens > 0
          then (memoryTPMStore m)(key \<mapsto> record_count (memoryTPMStore m key) now tokens 60)
          else memoryTPMStore m),
       memoryRPDStore =
         (if rpd > 0
          then (memoryRPDStore m)(key \<mapsto> record_count (memoryRPDStore m key) now 1 (24 * 3600))
          else memoryRPDStore m)\<rparr>)"

subsection \<open>The dispatcher\<close>

record limiter =
  RedisEnabled :: bool
  RDB :: rdb
  mem :: memory

definition CheckChannelRateLimit ::
  "limiter \<Rightarrow> int \<Rightarrow> int \<Rightarrow> string \<Rightarrow> int \<Rightarrow> int \<Rightarrow> int \<Rightarrow> rl_error option" where
  "CheckChannelRateLimit s now channelId modelName rpm tpm rpd =
     (if RedisEnabled s then checkChannelRateLimitRedis (RDB s) now channelId modelName rpm tpm rpd
      else checkChannelRateLimitMemory (mem s) now channelId modelName rpm tpm rpd)"

definition RecordChannelRateLimit ::
  "limiter \<Rightarrow> int \<Rightarrow> int \<Rightarrow> string \<Rightarrow> int \<Rightarrow> int \<Rightarrow> int \<Rightarrow> int \<Rightarrow> go_panic + limiter" where
  "RecordChannelRateLimit s now channelId modelName rpm tpm rpd tokens =
     (if RedisEnabled s
      then Inr (s\<lparr>RDB := recordChannelRateLimitRedis (RDB s) now channelId modelName rpm tpm rpd tokens\<rparr>)
      else case recordChannelRateLimitMemory (mem s) now channelId modelName rpm tpm rpd tokens of
             Inl p \<Rightarrow> Inl p
           | Inr m \<Rightarrow> Inr (s\<lparr>mem := m\<rparr>))"

definition GetChannelRateLimitUsage ::
  "limiter \<Rightarrow> int \<Rightarrow> int \<Rightarrow> string \<Rightarrow> int \<times> int \<times> int" where
  "GetChannelRateLimitUsage s now channelId modelName =
     (if RedisEnabled s then getChannelRateLimitUsageRedis (RDB s) now channelId modelName
      else getChannelRateLimitUsageMemory (mem s) now channelId modelName)"

subsection \<open>Scripts of calls\<close>

datatype call =
  Check int string int int int
| Record int string int int int int
| GetUsage int string

datatype outcome =
  Checked "rl_error option"
| Recorded
| Usage int int int
| Panicked go_panic

definition exec :: "limiter \<Rightarrow> int \<Rightarrow> call \<Rightarrow> outcome \<times> limiter" where
  "exec s now c =
     (case c of
        Check channelId modelName rpm tpm rpd \<Rightarrow>
          (Checked (CheckChannelRateLimit s now channelId modelName rpm tpm rpd), s)
      | Record channelId modelName rpm tpm rpd tokens \<Rightarrow>
          (case RecordChannelRateLimit s now channelId modelName rpm tpm rpd tokens of
             Inl p \<Rightarrow> (Panicked p, s)
           | Inr s' \<Rightarrow> (Recorded, s'))
      | GetUsage channelId modelName \<Rightarrow>
          (case GetChannelRateLimitUsage s now channelId modelName of
             (rpm, tpm, rpd) \<Rightarrow> (Usage rpm tpm rpd, s)))"

text \<open>A script is a list of calls with the time of each; a panic ends it.\<close>

fun run :: "limiter \<Rightarrow> (int \<times> call) list \<Rightarrow> outcome list \<times> limiter" where
  "run s [] = ([], s)"
| "run s ((now, c) # script) =
     (case exec s now c of
        (Panicked p, s') \<Rightarrow> ([Panicked p], s')
      | (out, s') \<Rightarrow> (case run s' script of (outs, s'') \<Rightarrow> (out # outs, s'')))"

definition redis_limiter :: limiter where
  "redis_limiter = \<lparr>RedisEnabled = True, RDB = empty_rdb, mem = empty_memory\<rparr>"

definition memory_limiter :: limiter where
  "memory_limiter = \<lparr>RedisEnabled = False, RDB = empty_rdb, mem = empty_memory\<rparr>"

subsection \<open>Notions used in the proofs and in the examples\<close>

text \<open>The number a string of decimal digits stands for.\<close>

definition digit_val :: "char \<Rightarrow> nat" where
  "digit_val c = of_char c - 48"

definition decimal_val :: "string \<Rightarrow> nat" where
  "decimal_val cs = foldl (\<lambda>a c. 10 * a + digit_val c) 0 cs"

text \<open>A memory state in which all three dimensions of one key have seen traffic.\<close>

definition busy_memory :: memory where
  "busy_memory =
     \<lparr>memoryRPMStore = [memory_key 7 ''gpt-4'' \<mapsto> [100, 101, 102]],
      memoryTPMStore = [memory_key 7 ''gpt-4'' \<mapsto> \<lparr>Count = 9000, Expiration = 160\<rparr>],
      memoryRPDStore = [memory_key 7 ''gpt-4'' \<mapsto> \<lparr>Count = 3, Expiration = 86500\<rparr>]\<rparr>"

text \<open>
  A Redis store whose three keys for one pair are at their limits, and whose reads of an
  element and of a counter fail.
\<close>

definition failing_reads :: rdb where
  "failing_reads =
     \<lparr>db = [redis_key ChannelRPMPrefix 7 ''gpt-4'' \<mapsto> \<lparr>content = RList [102, 101, 100], expire_at = Some 162\<rparr>,
             redis_key ChannelTPMPrefix 7 ''gpt-4'' \<mapsto> \<lparr>content = RInt 9000, expire_at = Some 160\<rparr>,
             redis_key ChannelRPDPrefix 7 ''gpt-4'' \<mapsto> \<lparr>content = RInt 3, expire_at = Some 86500\<rparr>],
      fails = (\<lambda>cmd key. cmd = CmdLIndex \<or> cmd = CmdGet)\<rparr>"

text \<open>The kind of outcome each call has.\<close>

fun answers :: "call \<Rightarrow> outcome \<Rightarrow> bool" where
  "answers (Check channelId modelName rpm tpm rpd) (Checked err) = True"
| "answers (Record channelId modelName rpm tpm rpd tokens) Recorded = True"
| "answers (GetUsage channelId modelName) (Usage rpm tpm rpd) = True"
| "answers c out = False"

text \<open>
  The window the memory backend stores at a Record: the timestamps younger than 60
  seconds, then \<open>now\<close>, cut to the last \<open>rpm\<close> of them (the last 1000 without a limit).
\<close>

definition recorded_window :: "int \<Rightarrow> int \<Rightarrow> int list \<Rightarrow> int list" where
  "recorded_window rpm now timestamps =
     (let new = filter (\<lambda>ts. now - ts < 60) timestamps @ [now]
      in drop (length new - nat (if rpm \<le> 0 then 1000 else rpm)) new)"

definition busy_limiter :: limiter where
  "busy_limiter = \<lparr>RedisEnabled = False, RDB = empty_rdb, mem = busy_memory\<rparr>"

text \<open>A list of Record calls for one pair: the time, the three limits and the tokens of each.\<close>

definition record_calls ::
  "int \<Rightarrow> string \<Rightarrow> (int \<times> int \<times> int \<times> int \<times> int) list \<Rightarrow> (int \<times> call) list" where
  "record_calls channelId modelName recs =
     map (\<lambda>(now, rpm, tpm, rpd, tokens). (now, Record channelId modelName rpm tpm rpd tokens)) recs"

definition tokens_of :: "int \<times> int \<times> int \<times> int \<times> int \<Rightarrow> int" where
  "tokens_of rec = (case rec of (now, rpm, tpm, rpd, tokens) \<Rightarrow> tokens)"

text \<open>
  The three groups of commands of the Redis backend's Record: push, trim and expire on the
  RPM list; add and, on the first write of a window, expire on a counter.
\<close>

definition rpm_block :: "rdb \<Rightarrow> int \<Rightarrow> string \<Rightarrow> int \<Rightarrow> rdb" where
  "rpm_block r now key limit =
     snd (Expire (snd (LTrim (snd (LPush r now key now)) now key 0 (limit - 1))) now key 60)"

definition counter_block :: "rdb \<Rightarrow> int \<Rightarrow> string \<Rightarrow> int \<Rightarrow> int \<Rightarrow> rdb" where
  "counter_block r now key n window =
     (if result_or_zero (fst (IncrBy r now key n)) = n
      then snd (Expire (snd (IncrBy r now key n)) now key window)
      else snd (IncrBy r now key n))"

text \<open>No RPM history for a pair, in the backend that is switched on.\<close>

definition no_rpm_history :: "limiter \<Rightarrow> int \<Rightarrow> string \<Rightarrow> bool" where
  "no_rpm_history s channelId modelName =
     (if RedisEnabled s then db (RDB s) (redis_key ChannelRPMPrefix channelId modelName) = None
      else memoryRPMStore (mem s) (memory_key channelId modelName) = None)"

text \<open>The RPM sequence stored for a pair at a time, in the backend that is switched on.\<close>

definition stored_rpm :: "limiter \<Rightarrow> int \<Rightarrow> int \<Rightarrow> string \<Rightarrow> int list" where
  "stored_rpm s now channelId modelName =
     (if RedisEnabled s
      then (case live (RDB s) now (redis_key ChannelRPMPrefix channelId modelName) of
              None \<Rightarrow> []
            | Some e \<Rightarrow> (case content e of RList xs \<Rightarrow> xs | RInt _ \<Rightarrow> []))
      else (case memoryRPMStore (mem s) (memory_key channelId modelName) of
              None \<Rightarrow> []
            | Some timestamps \<Rightarrow> timestamps))"

text \<open>
  The list under a key as the commands see it: empty when the key is absent or gone,
  nothing when the key holds an integer.
\<close>

definition list_at :: "rdb \<Rightarrow> int \<Rightarrow> string \<Rightarrow> int list option" where
  "list_at r now key =
     (case live r now key of
        None \<Rightarrow> Some []
      | Some e \<Rightarrow> (case content e of RList xs \<Rightarrow> Some xs | RInt _ \<Rightarrow> None))"

text \<open>What a key holds, whether its time to live has ended or not.\<close>

definition held :: "rdb \<Rightarrow> string \<Rightarrow> redis_value option" where
  "held r key = (case db r key of None \<Rightarrow> None | Some e \<Rightarrow> Some (content e))"

text \<open>
  When the outcomes of one call at \<open>now\<close> agree between the backends; \<open>sr\<close> is the state of
  the Redis backend before the call, \<open>out\<close> its outcome and \<open>out'\<close> the outcome of the
  memory backend. Both Checks pass or both are saturated. Both GetUsage return the same
  \<open>tpm\<close> and \<open>rpd\<close>; the \<open>rpm\<close> of the Redis backend is the length of the list that its
  key holds, and the \<open>rpm\<close> of the memory backend is the number of the entries of that
  list that are younger than 60 seconds.
\<close>

fun agree_at :: "limiter \<Rightarrow> int \<Rightarrow> call \<Rightarrow> outcome \<Rightarrow> outcome \<Rightarrow> bool" where
  "agree_at sr now (Check channelId modelName rpm tpm rpd) (Checked a) (Checked b) =
     ((a = None) = (b = None))"
| "agree_at sr now (Record channelId modelName rpm tpm rpd tokens) Recorded Recorded = True"
| "agree_at sr now (GetUsage channelId modelName) (Usage rpm tpm rpd) (Usage rpm' tpm' rpd') =
     (tpm = tpm' \<and> rpd = rpd' \<and>
      rpm = int (length (stored_rpm sr now channelId modelName)) \<and>
      rpm' = int (length (filter (\<lambda>ts. now - ts < 60) (stored_rpm sr now channelId modelName))))"
| "agree_at sr now c out out' = False"

text \<open>
  The two backends run the same script side by side, \<open>sr\<close> with Redis and \<open>sm\<close> with the
  memory stores, and agree at every call.
\<close>

fun agree_along :: "limiter \<Rightarrow> limiter \<Rightarrow> (int \<times> call) list \<Rightarrow> bool" where
  "agree_along sr sm [] = True"
| "agree_along sr sm ((now, c) # script) =
     (agree_at sr now c (fst (exec sr now c)) (fst (exec sm now c)) \<and>
      agree_along (snd (exec sr now c)) (snd (exec sm now c)) script)"

text \<open>
  No sum of a Record leaves the signed 64-bit range: the tokens are an \<open>int64\<close>, and what
  the Record adds to a counter of the memory backend that has not expired stays at or
  below \<open>max_int64\<close>. \<open>counts_fit\<close> says so of every Record of a script.
\<close>

fun fits :: "memory \<Rightarrow> int \<Rightarrow> call \<Rightarrow> bool" where
  "fits m now (Record channelId modelName rpm tpm rpd tokens) =
     (tokens \<le> max_int64 \<and>
      (case memoryTPMStore m (memory_key channelId modelName) of
         None \<Rightarrow> True
       | Some item \<Rightarrow>
           Expiration item \<le> now \<or> tokens \<le> 0 \<or> Count item + tokens \<le> max_int64) \<and>
      (case memoryRPDStore m (memory_key channelId modelName) of
         None \<Rightarrow> True
       | Some item \<Rightarrow> Expiration item \<le> now \<or> Count item + 1 \<le> max_int64))"
| "fits m now c = True"

fun counts_fit :: "limiter \<Rightarrow> (int \<times> call) list \<Rightarrow> bool" where
  "counts_fit s [] = True"
| "counts_fit s ((now, c) # script) =
     (fits (mem s) now c \<and> counts_fit (snd (exec s now c)) script)"

text \<open>A call passes the RPM limit that \<open>limit_of\<close> gives for its pair.\<close>

fun steady :: "(int \<Rightarrow> string \<Rightarrow> int) \<Rightarrow> call \<Rightarrow> bool" where
  "steady limit_of (Check channelId modelName rpm tpm rpd) = (rpm = limit_of channelId modelName)"
| "steady limit_of (Record channelId modelName rpm tpm rpd tokens) = (rpm = limit_of channelId modelName)"
| "steady limit_of (GetUsage channelId modelName) = True"

text \<open>
  How the two stores of one pair correspond at a time \<open>T\<close>, when both have seen the same
  calls. The Redis list \<open>L\<close> is not empty, its newest timestamp first; it lives for 60
  seconds after its newest timestamp, which is not after \<open>T\<close>; it is no longer than the
  cap; and the memory backend holds those of its timestamps that were younger than 60
  seconds at the newest, oldest first. A counter is the same number with the same
  expiration in both stores.
\<close>

definition rel_rpm :: "int \<Rightarrow> int \<Rightarrow> redis_entry option \<Rightarrow> int list option \<Rightarrow> bool" where
  "rel_rpm T limit entry window =
     (case entry of
        None \<Rightarrow> window = None
      | Some e \<Rightarrow>
          (case content e of
             RInt _ \<Rightarrow> False
           | RList L \<Rightarrow>
               L \<noteq> [] \<and> expire_at e = Some (hd L + 60) \<and> sorted_wrt (\<lambda>a b. b \<le> a) L \<and>
               hd L \<le> T \<and> int (length L) \<le> (if limit \<le> 0 then 1000 else limit) \<and>
               window = Some (rev (filter (\<lambda>ts. hd L - ts < 60) L))))"

definition rel_count :: "redis_entry option \<Rightarrow> MemoryCountItem option \<Rightarrow> bool" where
  "rel_count entry item =
     (case entry of
        None \<Rightarrow> item = None
      | Some e \<Rightarrow>
          (case item of
             None \<Rightarrow> False
           | Some i \<Rightarrow>
               content e = RInt (Count i) \<and> expire_at e = Some (Expiration i) \<and> 0 < Count i))"

definition related :: "(int \<Rightarrow> string \<Rightarrow> int) \<Rightarrow> int \<Rightarrow> rdb \<Rightarrow> memory \<Rightarrow> bool" where
  "related limit_of T r m =
     (healthy r \<and>
      (\<forall>channelId modelName.
         rel_rpm T (limit_of channelId modelName)
           (db r (redis_key ChannelRPMPrefix channelId modelName))
           (memoryRPMStore m (memory_key channelId modelName)) \<and>
         rel_count (db r (redis_key ChannelTPMPrefix channelId modelName))
           (memoryTPMStore m (memory_key channelId modelName)) \<and>
         rel_count (db r (redis_key ChannelRPDPrefix channelId modelName))
           (memoryRPDStore m (memory_key channelId modelName))))"

text \<open>
  No TPM counter for a pair, in the backend that is switched on; the Redis store executes
  its commands.
\<close>

definition no_tpm_counter :: "limiter \<Rightarrow> int \<Rightarrow> string \<Rightarrow> bool" where
  "no_tpm_counter s channelId modelName =
     (if RedisEnabled s
      then healthy (RDB s) \<and> db (RDB s) (redis_key ChannelTPMPrefix channelId modelName) = None
      else memoryTPMStore (mem s) (memory_key channelId modelName) = None)"

text \<open>
  What a Check can see of one dimension in the Redis store: the entry under the key of the
  dimension, and whether the reads of that key fail (\<open>LLEN\<close> and \<open>LINDEX\<close> for the list
  of RPM, \<open>GET\<close> for a counter).
\<close>

definition redis_rpm_data :: "rdb \<Rightarrow> int \<Rightarrow> string \<Rightarrow> redis_entry option \<times> bool \<times> bool" where
  "redis_rpm_data r channelId modelName =
     (db r (redis_key ChannelRPMPrefix channelId modelName),
      fails r CmdLLen (redis_key ChannelRPMPrefix channelId modelName),
      fails r CmdLIndex (redis_key ChannelRPMPrefix channelId modelName))"

definition redis_count_data :: "rdb \<Rightarrow> string \<Rightarrow> int \<Rightarrow> string \<Rightarrow> redis_entry option \<times> bool" where
  "redis_count_data r prefix channelId modelName =
     (db r (redis_key prefix channelId modelName),
      fails r CmdGet (redis_key prefix channelId modelName))"

text \<open>
  When the usage of a dimension has reached its limit, said of what the stores hold and
  not of what Check returns. Redis, RPM: the limit is positive, the two reads work, and
  the key holds a list that has not expired, with at least \<open>limit\<close> entries, the oldest
  (the last) younger than 60 seconds. Redis, a counter: the limit is positive, the read
  works, and the key holds an integer that has not expired and is at least the limit.
  Memory, RPM: the limit is positive and at least \<open>limit\<close> of the stored timestamps are
  younger than 60 seconds. Memory, a counter: the limit is positive and the item has not
  expired and counts at least the limit.
\<close>

definition unexpired :: "redis_entry \<Rightarrow> int \<Rightarrow> bool" where
  "unexpired e now = (case expire_at e of None \<Rightarrow> True | Some t \<Rightarrow> now < t)"

definition redis_rpm_reached :: "redis_entry option \<times> bool \<times> bool \<Rightarrow> int \<Rightarrow> int \<Rightarrow> bool" where
  "redis_rpm_reached data now limit =
     (case data of (entry, llen_fails, lindex_fails) \<Rightarrow>
        0 < limit \<and> \<not> llen_fails \<and> \<not> lindex_fails \<and>
        (case entry of
           None \<Rightarrow> False
         | Some e \<Rightarrow>
             unexpired e now \<and>
             (case content e of
                RInt v \<Rightarrow> False
              | RList timestamps \<Rightarrow>
                  limit \<le> int (length timestamps) \<and> now - last timestamps < 60)))"

definition redis_count_reached :: "redis_entry option \<times> bool \<Rightarrow> int \<Rightarrow> int \<Rightarrow> bool" where
  "redis_count_reached data now limit =
     (case data of (entry, get_fails) \<Rightarrow>
        0 < limit \<and> \<not> get_fails \<and>
        (case entry of
           None \<Rightarrow> False
         | Some e \<Rightarrow>
             unexpired e now \<and>
             (case content e of RInt v \<Rightarrow> limit \<le> v | RList timestamps \<Rightarrow> False)))"

definition memory_rpm_reached :: "int list option \<Rightarrow> int \<Rightarrow> int \<Rightarrow> bool" where
  "memory_rpm_reached window now limit =
     (0 < limit \<and>
      (case window of
         None \<Rightarrow> False
       | Some timestamps \<Rightarrow> limit \<le> int (length (filter (\<lambda>ts. now - ts < 60) timestamps))))"

definition memory_count_reached :: "MemoryCountItem option \<Rightarrow> int \<Rightarrow> int \<Rightarrow> bool" where
  "memory_count_reached item now limit =
     (0 < limit \<and>
      (case item of None \<Rightarrow> False | Some i \<Rightarrow> now < Expiration i \<and> limit \<le> Count i))"

text \<open>
  The failure of the first dimension of a list, in the order of the list, that has reached
  its limit; none when no dimension has.
\<close>

fun first_reached :: "(dimension \<times> bool) list \<Rightarrow> rl_error option" where
  "first_reached [] = None"
| "first_reached ((d, reached) # rest) = (if reached then Some (Saturated d) else first_reached rest)"

section \<open>Properties\<close>

subsection \<open>Keys are injective\<close>

text \<open>
  \<open>%d\<close> prints digits and at most a minus sign, so the first colon of a key ends the
  channel id: two pairs (channelId, modelName) with the same key are the same pair.
\<close>

lemma of_char_digit_char: "d < 10 \<Longrightarrow> of_char (digit_char d) = 48 + d"
  by (simp add: digit_char_def)

lemma digit_char_not_colon: "d < 10 \<Longrightarrow> digit_char d \<noteq> CHR '':''"
proof
  assume "d < 10" and "digit_char d = CHR '':''"
  then have "(of_char (digit_char d) :: nat) = of_char CHR '':''" by simp
  with \<open>d < 10\<close> show False by (simp add: of_char_digit_char)
qed

lemma digit_char_not_minus: "d < 10 \<Longrightarrow> digit_char d \<noteq> CHR ''-''"
proof
  assume "d < 10" and "digit_char d = CHR ''-''"
  then have "(of_char (digit_char d) :: nat) = of_char CHR ''-''" by simp
  with \<open>d < 10\<close> show False by (simp add: of_char_digit_char)
qed

lemma digit_val_digit_char: "d < 10 \<Longrightarrow> digit_val (digit_char d) = d"
  by (simp add: digit_val_def digit_char_def)

lemma decimal_val_digits: "decimal_val (digits n) = n"
proof (induction n rule: digits.induct)
  case (1 n)
  show ?case
  proof (cases "n < 10")
    case True
    then show ?thesis
      by (subst digits.simps) (simp add: decimal_val_def digit_val_digit_char)
  next
    case False
    with 1 have "decimal_val (digits (n div 10)) = n div 10" by simp
    with False show ?thesis
      by (subst digits.simps) (simp add: decimal_val_def digit_val_digit_char)
  qed
qed

lemma digits_inj: "digits m = digits n \<Longrightarrow> m = n"
  by (metis decimal_val_digits)

lemma digits_chars: "c \<in> set (digits n) \<Longrightarrow> \<exists>d<10. c = digit_char d"
proof (induction n rule: digits.induct)
  case (1 n)
  show ?case
  proof (cases "n < 10")
    case True
    with "1.prems" show ?thesis
      by (subst (asm) digits.simps) auto
  next
    case False
    with "1.prems" have "c \<in> set (digits (n div 10)) \<or> c = digit_char (n mod 10)"
      by (subst (asm) digits.simps) auto
    then show ?thesis
    proof
      assume "c \<in> set (digits (n div 10))"
      with 1 False show ?thesis by simp
    next
      assume "c = digit_char (n mod 10)"
      moreover have "n mod 10 < 10" by simp
      ultimately show ?thesis by blast
    qed
  qed
qed

lemma digits_no_minus: "digits n \<noteq> CHR ''-'' # cs"
proof
  assume "digits n = CHR ''-'' # cs"
  then have "CHR ''-'' \<in> set (digits n)" by simp
  then obtain d where "d < 10" "CHR ''-'' = digit_char d" using digits_chars by blast
  then show False using digit_char_not_minus by metis
qed

lemma digits_no_colon: "CHR '':'' \<notin> set (digits n)"
proof
  assume "CHR '':'' \<in> set (digits n)"
  then obtain d where "d < 10" "CHR '':'' = digit_char d" using digits_chars by blast
  then show False using digit_char_not_colon by metis
qed

lemma fmt_d_inj: "fmt_d a = fmt_d b \<Longrightarrow> a = b"
  using digits_no_minus [of "nat a"] digits_no_minus [of "nat b"]
    digits_no_minus [of "nat a", symmetric] digits_no_minus [of "nat b", symmetric]
  by (auto simp: fmt_d_def split: if_splits dest!: digits_inj)

lemma fmt_d_no_colon: "CHR '':'' \<notin> set (fmt_d a)"
  by (simp add: fmt_d_def digits_no_colon)

lemma first_split_unique:
  "c \<notin> set xs \<Longrightarrow> c \<notin> set xs' \<Longrightarrow> xs @ c # ys = xs' @ c # ys' \<Longrightarrow> xs = xs' \<and> ys = ys'"
proof (induction xs arbitrary: xs')
  case Nil
  then show ?case by (cases xs') auto
next
  case (Cons x xs)
  then show ?case by (cases xs') auto
qed

lemma memory_key_inj: "memory_key a m = memory_key b n \<longleftrightarrow> a = b \<and> m = n"
  using first_split_unique [OF fmt_d_no_colon fmt_d_no_colon, of a m b n] fmt_d_inj
  by (auto simp: memory_key_def)

lemma redis_key_inj: "redis_key p a m = redis_key p b n \<longleftrightarrow> a = b \<and> m = n"
  using memory_key_inj [of a m b n] by (simp add: redis_key_def memory_key_def)

lemma redis_key_prefix:
  "redis_key ChannelRPMPrefix a m \<noteq> redis_key ChannelTPMPrefix b n"
  "redis_key ChannelRPMPrefix a m \<noteq> redis_key ChannelRPDPrefix b n"
  "redis_key ChannelTPMPrefix a m \<noteq> redis_key ChannelRPDPrefix b n"
  "redis_key ChannelTPMPrefix a m \<noteq> redis_key ChannelRPMPrefix b n"
  "redis_key ChannelRPDPrefix a m \<noteq> redis_key ChannelRPMPrefix b n"
  "redis_key ChannelRPDPrefix a m \<noteq> redis_key ChannelTPMPrefix b n"
  by (simp_all add: redis_key_def ChannelRPMPrefix_def ChannelTPMPrefix_def ChannelRPDPrefix_def)

subsection \<open>Sums inside 64 bits\<close>

lemma wrap64_id: "min_int64 \<le> x \<Longrightarrow> x \<le> max_int64 \<Longrightarrow> wrap64 x = x"
  by (simp add: wrap64_def min_int64_def max_int64_def)

subsection \<open>The two loops\<close>

lemma count_recent_filter:
  "count_recent now timestamps count =
     count + int (length (filter (\<lambda>ts. now - ts < 60) timestamps))"
  by (induction timestamps arbitrary: count) auto

lemma keep_recent_filter:
  "keep_recent now timestamps acc = acc @ filter (\<lambda>ts. now - ts < 60) timestamps"
  by (induction timestamps arbitrary: acc) auto

subsection \<open>Record of the memory backend does not panic\<close>

lemma trim_slice:
  "0 < limit \<Longrightarrow>
   (if int (length xs) > limit then slice_from xs (int (length xs) - limit) else Inr xs) =
     Inr (drop (length xs - nat limit) xs)"
proof (cases "int (length xs) > limit")
  case True
  assume "0 < limit"
  with True have "nat (int (length xs) - limit) = length xs - nat limit" by linarith
  with True \<open>0 < limit\<close> show ?thesis by (simp add: slice_from_def)
next
  case False
  then have "length xs - nat limit = 0" by linarith
  with False show ?thesis by simp
qed

lemma recordChannelRateLimitMemory_Inr:
  "recordChannelRateLimitMemory m now channelId modelName rpm tpm rpd tokens =
     Inr \<lparr>memoryRPMStore =
            (memoryRPMStore m)(memory_key channelId modelName \<mapsto>
               recorded_window rpm now
                 (case memoryRPMStore m (memory_key channelId modelName) of
                    None \<Rightarrow> [] | Some ts \<Rightarrow> ts)),
          memoryTPMStore =
            (if tokens > 0
             then (memoryTPMStore m)(memory_key channelId modelName \<mapsto>
                    record_count (memoryTPMStore m (memory_key channelId modelName)) now tokens 60)
             else memoryTPMStore m),
          memoryRPDStore =
            (memoryRPDStore m)(memory_key channelId modelName \<mapsto>
               record_count (memoryRPDStore m (memory_key channelId modelName)) now 1 (24 * 3600))\<rparr>"
proof -
  let ?new = "keep_recent now (case memoryRPMStore m (memory_key channelId modelName) of
                    None \<Rightarrow> [] | Some ts \<Rightarrow> ts) [] @ [now]"
  have "(if int (length ?new) > (if rpm \<le> 0 then 1000 else rpm)
         then slice_from ?new (int (length ?new) - (if rpm \<le> 0 then 1000 else rpm))
         else Inr ?new) =
        Inr (drop (length ?new - nat (if rpm \<le> 0 then 1000 else rpm)) ?new)"
    by (rule trim_slice) simp
  then show ?thesis
    unfolding recordChannelRateLimitMemory_def Let_def recorded_window_def
    by (simp add: keep_recent_filter)
qed

text \<open>The definitions a concrete script of the memory backend unfolds to.\<close>

lemmas memory_run_simps =
  memory_limiter_def empty_memory_def empty_rdb_def exec_def RecordChannelRateLimit_def
  recordChannelRateLimitMemory_Inr recorded_window_def record_count_def wrap64_def
  CheckChannelRateLimit_def checkChannelRateLimitMemory_def
  GetChannelRateLimitUsage_def getChannelRateLimitUsageMemory_def

subsection \<open>Record calls of the memory backend in a script\<close>

text \<open>Every call has the outcome of its kind; none panics.\<close>

lemma exec_answers: "answers c (fst (exec s now c))"
  by (cases c)
     (auto simp: exec_def RecordChannelRateLimit_def recordChannelRateLimitMemory_Inr
        split: prod.splits sum.splits)

lemma exec_not_Panicked: "fst (exec s now c) \<noteq> Panicked p"
  using exec_answers [of c s now] by (cases c) auto


lemma exec_Record_memory:
  "\<not> RedisEnabled s \<Longrightarrow>
   exec s now (Record channelId modelName rpm tpm rpd tokens) =
     (Recorded,
      s\<lparr>mem :=
         \<lparr>memoryRPMStore =
            (memoryRPMStore (mem s))(memory_key channelId modelName \<mapsto>
               recorded_window rpm now
                 (case memoryRPMStore (mem s) (memory_key channelId modelName) of
                    None \<Rightarrow> [] | Some ts \<Rightarrow> ts)),
          memoryTPMStore =
            (if tokens > 0
             then (memoryTPMStore (mem s))(memory_key channelId modelName \<mapsto>
                    record_count (memoryTPMStore (mem s) (memory_key channelId modelName)) now tokens 60)
             else memoryTPMStore (mem s)),
          memoryRPDStore =
            (memoryRPDStore (mem s))(memory_key channelId modelName \<mapsto>
               record_count (memoryRPDStore (mem s) (memory_key channelId modelName)) now 1 (24 * 3600))\<rparr>\<rparr>)"
  by (simp add: exec_def RecordChannelRateLimit_def recordChannelRateLimitMemory_Inr)

lemma run_Record:
  "run s ((now, Record channelId modelName rpm tpm rpd tokens) # script) =
     (Recorded # fst (run (snd (exec s now (Record channelId modelName rpm tpm rpd tokens))) script),
      snd (run (snd (exec s now (Record channelId modelName rpm tpm rpd tokens))) script))"
proof -
  obtain out s' where e: "exec s now (Record channelId modelName rpm tpm rpd tokens) = (out, s')"
    by (cases "exec s now (Record channelId modelName rpm tpm rpd tokens)")
  with exec_answers [of "Record channelId modelName rpm tpm rpd tokens" s now]
  have "out = Recorded" by (cases out) auto
  with e show ?thesis by (simp split: prod.splits)
qed


subsection \<open>Record of the Redis backend, command by command\<close>

lemma healthy_fails: "healthy r \<Longrightarrow> \<not> fails r cmd key"
  by (simp add: healthy_def)


lemma recordChannelRateLimitRedis_blocks:
  "recordChannelRateLimitRedis r now channelId modelName rpm tpm rpd tokens =
     (let r3 = rpm_block r now (redis_key ChannelRPMPrefix channelId modelName)
                 (if rpm \<le> 0 then 1000 else rpm);
          r4 = counter_block r3 now (redis_key ChannelRPDPrefix channelId modelName) 1 (24 * 3600)
      in if tokens > 0
         then counter_block r4 now (redis_key ChannelTPMPrefix channelId modelName) tokens 60
         else r4)"
  by (simp add: recordChannelRateLimitRedis_def rpm_block_def counter_block_def Incr_def Let_def)

lemma LPush_frame:
  "fails (snd (LPush r now key v)) = fails r"
  "key' \<noteq> key \<Longrightarrow> db (snd (LPush r now key v)) key' = db r key'"
  by (simp_all add: LPush_def split: option.splits redis_value.splits)

lemma LTrim_frame:
  "fails (snd (LTrim r now key start stop)) = fails r"
  "key' \<noteq> key \<Longrightarrow> db (snd (LTrim r now key start stop)) key' = db r key'"
  by (simp_all add: LTrim_def Let_def split: option.splits redis_value.splits)

lemma Expire_frame:
  "fails (snd (Expire r now key seconds)) = fails r"
  "key' \<noteq> key \<Longrightarrow> db (snd (Expire r now key seconds)) key' = db r key'"
  by (simp_all add: Expire_def split: option.splits)

lemma IncrBy_frame:
  "fails (snd (IncrBy r now key n)) = fails r"
  "key' \<noteq> key \<Longrightarrow> db (snd (IncrBy r now key n)) key' = db r key'"
  by (simp_all add: IncrBy_def split: option.splits redis_value.splits)

lemma counter_block_frame:
  "fails (counter_block r now key n window) = fails r"
  "key' \<noteq> key \<Longrightarrow> db (counter_block r now key n window) key' = db r key'"
  by (simp_all add: counter_block_def IncrBy_frame Expire_frame)

lemma rpm_block_frame:
  "fails (rpm_block r now key limit) = fails r"
  "key' \<noteq> key \<Longrightarrow> db (rpm_block r now key limit) key' = db r key'"
  by (simp_all add: rpm_block_def LPush_frame LTrim_frame Expire_frame)


lemma live_upd_same:
  "live (r\<lparr>db := (db r)(key \<mapsto> e)\<rparr>) now key =
     (case expire_at e of None \<Rightarrow> Some e | Some t \<Rightarrow> if t \<le> now then None else Some e)"
  by (simp add: live_def)

lemma live_upd_None: "live (r\<lparr>db := (db r)(key := None)\<rparr>) now key = None"
  by (simp add: live_def)

lemma live_expire_at: "live r now key = Some e \<Longrightarrow> expire_at e = Some t \<Longrightarrow> now < t"
  by (auto simp: live_def split: option.splits if_splits)

lemma live_Some_db: "live r now key = Some e \<Longrightarrow> db r key = Some e"
  by (auto simp: live_def split: option.splits if_splits)

lemma LPush_list:
  "\<not> fails r CmdLPush key \<Longrightarrow> list_at r now key = Some xs \<Longrightarrow>
   list_at (snd (LPush r now key v)) now key = Some (v # xs)"
  by (auto simp: list_at_def LPush_def live_upd_same dest: live_expire_at
      split: option.splits redis_value.splits)

lemma LTrim_list:
  "\<not> fails r CmdLTrim key \<Longrightarrow> list_at r now key = Some xs \<Longrightarrow> 0 \<le> stop \<Longrightarrow>
   list_at (snd (LTrim r now key 0 stop)) now key = Some (take (nat stop + 1) xs)"
  by (auto simp: list_at_def LTrim_def live_upd_same live_upd_None Let_def nat_add_distrib
      dest: live_expire_at split: option.splits redis_value.splits)

lemma Expire_list:
  "0 < seconds \<Longrightarrow> list_at (snd (Expire r now key seconds)) now key = list_at r now key"
  by (auto simp: list_at_def Expire_def live_upd_same split: option.splits redis_value.splits)


lemma nat_pred_limit: "0 < limit \<Longrightarrow> nat (limit - 1) + 1 = nat limit"
  by linarith

lemma rpm_block_list:
  assumes "\<not> fails r CmdLPush key" "\<not> fails r CmdLTrim key" "0 < limit"
    and "list_at r now key = Some xs"
  shows "list_at (rpm_block r now key limit) now key = Some (take (nat limit) (now # xs))"
proof -
  let ?r1 = "snd (LPush r now key now)"
  have 1: "list_at ?r1 now key = Some (now # xs)"
    using assms by (simp add: LPush_list)
  have "\<not> fails ?r1 CmdLTrim key" using assms(2) by (simp add: LPush_frame)
  with 1 assms(3)
  have "list_at (snd (LTrim ?r1 now key 0 (limit - 1))) now key =
          Some (take (nat (limit - 1) + 1) (now # xs))"
    by (intro LTrim_list) simp_all
  moreover have "take (nat limit) (now # xs) = take (nat (limit - 1) + 1) (now # xs)"
    by (simp only: nat_pred_limit [OF assms(3)])
  ultimately show ?thesis
    by (simp only: rpm_block_def Expire_list)
qed

lemma LPush_entry:
  "\<not> fails r CmdLPush key \<Longrightarrow> list_at r now key = Some xs \<Longrightarrow>
   \<exists>e. live (snd (LPush r now key v)) now key = Some e \<and> content e = RList (v # xs)"
  by (auto simp: list_at_def LPush_def live_upd_same dest: live_expire_at
      split: option.splits redis_value.splits)

lemma LTrim_entry:
  "\<not> fails r CmdLTrim key \<Longrightarrow> live r now key = Some e \<Longrightarrow> content e = RList xs \<Longrightarrow>
   xs \<noteq> [] \<Longrightarrow> 0 \<le> stop \<Longrightarrow>
   \<exists>e'. live (snd (LTrim r now key 0 stop)) now key = Some e' \<and>
        content e' = RList (take (nat stop + 1) xs)"
  by (auto simp: LTrim_def live_upd_same Let_def nat_add_distrib
      dest: live_expire_at split: option.splits redis_value.splits)

lemma Expire_entry:
  "\<not> fails r CmdExpire key \<Longrightarrow> live r now key = Some e \<Longrightarrow>
   db (snd (Expire r now key seconds)) key = Some (e\<lparr>expire_at := Some (now + seconds)\<rparr>)"
  by (simp add: Expire_def)

lemma rpm_block_entry:
  assumes "\<not> fails r CmdLPush key" "\<not> fails r CmdLTrim key" "\<not> fails r CmdExpire key"
    and "0 < limit" and "list_at r now key = Some xs"
  shows "db (rpm_block r now key limit) key =
           Some \<lparr>content = RList (take (nat limit) (now # xs)), expire_at = Some (now + 60)\<rparr>"
proof -
  let ?r1 = "snd (LPush r now key now)"
  let ?r2 = "snd (LTrim ?r1 now key 0 (limit - 1))"
  obtain e1 where e1: "live ?r1 now key = Some e1" "content e1 = RList (now # xs)"
    using LPush_entry [OF assms(1,5)] by blast
  have "\<not> fails ?r1 CmdLTrim key" using assms(2) by (simp add: LPush_frame)
  from LTrim_entry [OF this e1, of "limit - 1"] assms(4)
  obtain e2 where e2: "live ?r2 now key = Some e2"
    "content e2 = RList (take (nat (limit - 1) + 1) (now # xs))"
    by auto
  have n: "take (nat limit) (now # xs) = take (nat (limit - 1) + 1) (now # xs)"
    by (simp only: nat_pred_limit [OF assms(4)])
  have "\<not> fails ?r2 CmdExpire key" using assms(3) by (simp add: LPush_frame LTrim_frame)
  from Expire_entry [OF this e2(1), of 60] e2(2) show ?thesis
    unfolding n rpm_block_def by (cases e2) simp
qed


lemma counter_block_fresh:
  "\<not> fails r CmdIncrBy key \<Longrightarrow> \<not> fails r CmdExpire key \<Longrightarrow> live r now key = None \<Longrightarrow>
   db (counter_block r now key n window) key =
     Some \<lparr>content = RInt n, expire_at = Some (now + window)\<rparr>"
  by (simp add: counter_block_def IncrBy_def result_or_zero_def Expire_def live_upd_same)

lemma counter_block_add:
  "\<not> fails r CmdIncrBy key \<Longrightarrow> live r now key = Some e \<Longrightarrow> content e = RInt v \<Longrightarrow>
   v \<noteq> 0 \<Longrightarrow> min_int64 \<le> v + n \<Longrightarrow> v + n \<le> max_int64 \<Longrightarrow>
   db (counter_block r now key n window) key = Some (e\<lparr>content := RInt (v + n)\<rparr>)"
  by (simp add: counter_block_def IncrBy_def result_or_zero_def)

lemma recordChannelRateLimitRedis_rpm_key:
  "db (recordChannelRateLimitRedis r now channelId modelName rpm tpm rpd tokens)
      (redis_key ChannelRPMPrefix channelId modelName) =
   db (rpm_block r now (redis_key ChannelRPMPrefix channelId modelName)
         (if rpm \<le> 0 then 1000 else rpm))
      (redis_key ChannelRPMPrefix channelId modelName)"
  by (simp add: recordChannelRateLimitRedis_blocks Let_def counter_block_frame redis_key_prefix)

lemma recordChannelRateLimitRedis_2_blocks:
  "recordChannelRateLimitRedis_2 r now channelId modelName rpm tpm rpd tokens =
     (let r3 = (if rpm > 0
                then rpm_block r now (redis_key ChannelRPMPrefix channelId modelName) rpm
                else r);
          r4 = (if rpd > 0
                then counter_block r3 now (redis_key ChannelRPDPrefix channelId modelName) 1 (24 * 3600)
                else r3)
      in if tpm > 0 \<and> tokens > 0
         then counter_block r4 now (redis_key ChannelTPMPrefix channelId modelName) tokens 60
         else r4)"
  by (simp add: recordChannelRateLimitRedis_2_def rpm_block_def counter_block_def Incr_def Let_def)

lemma recordChannelRateLimitRedis_2_rpm_key:
  "db (recordChannelRateLimitRedis_2 r now channelId modelName rpm tpm rpd tokens)
      (redis_key ChannelRPMPrefix channelId modelName) =
   (if rpm > 0
    then db (rpm_block r now (redis_key ChannelRPMPrefix channelId modelName) rpm)
           (redis_key ChannelRPMPrefix channelId modelName)
    else db r (redis_key ChannelRPMPrefix channelId modelName))"
  by (simp add: recordChannelRateLimitRedis_2_blocks Let_def counter_block_frame redis_key_prefix)

lemma list_at_cong: "db r key = db r' key \<Longrightarrow> list_at r now key = list_at r' now key"
  by (simp add: list_at_def live_def)

lemma recorded_window_props:
  "recorded_window rpm now timestamps \<noteq> [] \<and>
   last (recorded_window rpm now timestamps) = now \<and>
   int (length (recorded_window rpm now timestamps)) \<le> (if rpm \<le> 0 then 1000 else rpm)"
proof -
  let ?new = "filter (\<lambda>ts. now - ts < 60) timestamps @ [now]"
  let ?cap = "nat (if rpm \<le> 0 then 1000 else rpm)"
  have c: "0 < ?cap" by simp
  have l: "length ?new - ?cap < length ?new" using c by simp
  then have "drop (length ?new - ?cap) ?new \<noteq> []" by simp
  moreover from this have "last (drop (length ?new - ?cap) ?new) = now"
    by (simp only: last_drop [OF l]) simp
  moreover have "int (length (drop (length ?new - ?cap) ?new)) \<le> (if rpm \<le> 0 then 1000 else rpm)"
    by (simp only: length_drop) (auto split: if_splits)
  ultimately show ?thesis unfolding recorded_window_def Let_def by blast
qed



lemma LPush_held:
  "held (snd (LPush r now key v)) key = held r key \<or>
   held (snd (LPush r now key v)) key = Some (RList [v]) \<or>
   (\<exists>xs. held r key = Some (RList xs) \<and> held (snd (LPush r now key v)) key = Some (RList (v # xs)))"
  by (auto simp: held_def LPush_def dest!: live_Some_db split: option.splits redis_value.splits)

lemma LTrim_held:
  "0 \<le> stop \<Longrightarrow>
   held (snd (LTrim r now key 0 stop)) key = held r key \<or>
   held (snd (LTrim r now key 0 stop)) key = None \<or>
   (\<exists>xs. held r key = Some (RList xs) \<and>
      held (snd (LTrim r now key 0 stop)) key = Some (RList (take (Suc (nat stop)) xs)))"
  by (auto simp: held_def LTrim_def Let_def nat_add_distrib dest!: live_Some_db
      split: option.splits redis_value.splits)

lemma Expire_held: "held (snd (Expire r now key seconds)) key = held r key"
  by (auto simp: held_def Expire_def dest!: live_Some_db split: option.splits)

lemma held_cong: "db r key = db r' key \<Longrightarrow> held r key = held r' key"
  by (simp add: held_def)

lemma recordChannelRateLimitRedis_fails:
  "fails (recordChannelRateLimitRedis r now channelId modelName rpm tpm rpd tokens) = fails r"
  by (simp add: recordChannelRateLimitRedis_blocks Let_def counter_block_frame rpm_block_frame)

lemma exec_Record_redis:
  "RedisEnabled s \<Longrightarrow>
   exec s now (Record channelId modelName rpm tpm rpd tokens) =
     (Recorded,
      s\<lparr>RDB := recordChannelRateLimitRedis (RDB s) now channelId modelName rpm tpm rpd tokens\<rparr>)"
  by (simp add: exec_def RecordChannelRateLimit_def)

lemma run_Check:
  "run s [(now, Check channelId modelName rpm tpm rpd)] =
     ([Checked (CheckChannelRateLimit s now channelId modelName rpm tpm rpd)], s)"
  by (simp add: exec_def)


text \<open>The definitions a concrete script of the Redis backend unfolds to.\<close>


lemmas redis_run_simps =
  redis_limiter_def empty_rdb_def empty_memory_def exec_def RecordChannelRateLimit_def
  recordChannelRateLimitRedis_def CheckChannelRateLimit_def checkChannelRateLimitRedis_def
  GetChannelRateLimitUsage_def getChannelRateLimitUsageRedis_def
  LLen_def LIndex_def Get_def LPush_def LTrim_def Expire_def IncrBy_def Incr_def live_def
  result_or_zero_def Let_def redis_key_prefix min_int64_def max_int64_def



lemma live_cong: "db r key = db r' key \<Longrightarrow> live r now key = live r' now key"
  by (simp add: live_def)

lemma recordChannelRateLimitRedis_tpm_key:
  assumes "healthy r" "0 < tokens"
  shows "live r now (redis_key ChannelTPMPrefix channelId modelName) = None \<Longrightarrow>
           db (recordChannelRateLimitRedis r now channelId modelName rpm tpm rpd tokens)
              (redis_key ChannelTPMPrefix channelId modelName) =
             Some \<lparr>content = RInt tokens, expire_at = Some (now + 60)\<rparr>"
    and "live r now (redis_key ChannelTPMPrefix channelId modelName) = Some e \<Longrightarrow>
         content e = RInt v \<Longrightarrow> v \<noteq> 0 \<Longrightarrow>
         min_int64 \<le> v + tokens \<Longrightarrow> v + tokens \<le> max_int64 \<Longrightarrow>
           db (recordChannelRateLimitRedis r now channelId modelName rpm tpm rpd tokens)
              (redis_key ChannelTPMPrefix channelId modelName) =
             Some (e\<lparr>content := RInt (v + tokens)\<rparr>)"
proof -
  let ?kT = "redis_key ChannelTPMPrefix channelId modelName"
  let ?r4 = "counter_block
               (rpm_block r now (redis_key ChannelRPMPrefix channelId modelName)
                  (if rpm \<le> 0 then 1000 else rpm))
               now (redis_key ChannelRPDPrefix channelId modelName) 1 (24 * 3600)"
  have d: "db (recordChannelRateLimitRedis r now channelId modelName rpm tpm rpd tokens) ?kT =
             db (counter_block ?r4 now ?kT tokens 60) ?kT"
    using assms(2) by (simp add: recordChannelRateLimitRedis_blocks Let_def)
  have "db ?r4 ?kT = db r ?kT"
    by (simp add: counter_block_frame rpm_block_frame redis_key_prefix)
  then have l: "live ?r4 now ?kT = live r now ?kT" by (rule live_cong)
  have f: "\<not> fails ?r4 CmdIncrBy ?kT" "\<not> fails ?r4 CmdExpire ?kT"
    using assms(1) by (simp_all add: counter_block_frame rpm_block_frame healthy_fails)
  show "db (recordChannelRateLimitRedis r now channelId modelName rpm tpm rpd tokens) ?kT =
          Some \<lparr>content = RInt tokens, expire_at = Some (now + 60)\<rparr>"
    if "live r now ?kT = None"
    unfolding d using that l by (intro counter_block_fresh f) simp
  show "db (recordChannelRateLimitRedis r now channelId modelName rpm tpm rpd tokens) ?kT =
          Some (e\<lparr>content := RInt (v + tokens)\<rparr>)"
    if "live r now ?kT = Some e" "content e = RInt v" "v \<noteq> 0"
      "min_int64 \<le> v + tokens" "v + tokens \<le> max_int64"
    unfolding d using that l by (intro counter_block_add f) simp_all
qed



lemma reads_cong:
  assumes "db r' key = db r key"
  shows "fails r' CmdLLen key = fails r CmdLLen key \<Longrightarrow> LLen r' now key = LLen r now key"
    and "fails r' CmdLIndex key = fails r CmdLIndex key \<Longrightarrow>
         LIndex r' now key idx = LIndex r now key idx"
    and "fails r' CmdGet key = fails r CmdGet key \<Longrightarrow> Get r' now key = Get r now key"
  using live_cong [OF assms, of now]
  by (simp_all add: LLen_def LIndex_def Get_def)


subsection \<open>The two backends, call by call\<close>

text \<open>Lists of timestamps with the newest first.\<close>


lemma filter_none_below:
  "sorted_wrt (\<lambda>a b. b \<le> a) (y # ys) \<Longrightarrow> \<not> now - y < (60::int) \<Longrightarrow>
   filter (\<lambda>ts. now - ts < 60) ys = []"
  by (induction ys) auto

lemma take_filter_young:
  "sorted_wrt (\<lambda>a b. b \<le> a) ys \<Longrightarrow>
   take n (filter (\<lambda>ts. now - ts < (60::int)) ys) = filter (\<lambda>ts. now - ts < 60) (take n ys)"
proof (induction ys arbitrary: n)
  case Nil
  show ?case by simp
next
  case (Cons y ys)
  show ?case
  proof (cases "now - y < 60")
    case True
    with Cons show ?thesis by (cases n) simp_all
  next
    case False
    from filter_none_below [OF Cons.prems False]
    have e: "filter (\<lambda>ts. now - ts < 60) ys = []" .
    then have "filter (\<lambda>ts. now - ts < 60) (take k ys) = []" for k
      by (metis Cons.IH Cons.prems sorted_wrt.simps(2) take_Nil)
    with False e show ?thesis by (cases n) simp_all
  qed
qed

lemma drop_rev_take: "drop (length xs - n) (rev xs) = rev (take n xs)"
  by (simp add: rev_take)

lemma sorted_desc_last_le:
  "sorted_wrt (\<lambda>a b. b \<le> a) L \<Longrightarrow> x \<in> set L \<Longrightarrow> last L \<le> (x::int)"
  by (induction L) (auto split: if_splits)

lemma sorted_desc_le_hd:
  "sorted_wrt (\<lambda>a b. b \<le> a) L \<Longrightarrow> x \<in> set L \<Longrightarrow> (x::int) \<le> hd L"
  by (cases L) auto

lemma sorted_desc_take:
  "sorted_wrt (\<lambda>a b. b \<le> a) L \<Longrightarrow> sorted_wrt (\<lambda>a b. b \<le> (a::int)) (take n L)"
  by (induction L arbitrary: n) (auto simp: take_Cons' dest: in_set_takeD)

text \<open>One key: a counter, then the RPM list.\<close>


lemma rel_count_Get:
  assumes "rel_count (db r key) item" "\<not> fails r CmdGet key"
  shows "Get r now key =
           (case item of
              None \<Rightarrow> Inl Nil
            | Some i \<Rightarrow> if now < Expiration i then Inr (Count i) else Inl Nil)"
  using assms
  by (auto simp: rel_count_def Get_def live_def split: option.splits)

lemma rel_count_block:
  assumes "rel_count (db r key) item" "\<not> fails r CmdIncrBy key" "\<not> fails r CmdExpire key"
    and "0 < n"
    and "case item of None \<Rightarrow> True | Some i \<Rightarrow> Expiration i \<le> now \<or> Count i + n \<le> max_int64"
  shows "rel_count (db (counter_block r now key n window) key)
           (Some (record_count item now n window))"
proof (cases "live r now key")
  case None
  with assms(1) have "record_count item now n window = \<lparr>Count = n, Expiration = now + window\<rparr>"
    by (auto simp: rel_count_def record_count_def live_def split: option.splits if_splits)
  with counter_block_fresh [OF assms(2,3) None, of n window] assms(4) show ?thesis
    by (simp add: rel_count_def)
next
  case (Some e)
  then have d: "db r key = Some e" by (rule live_Some_db)
  with assms(1) obtain i where i: "item = Some i" "content e = RInt (Count i)"
    "expire_at e = Some (Expiration i)" "0 < Count i"
    by (auto simp: rel_count_def split: option.splits)
  from live_expire_at [OF Some i(3)] have young: "now < Expiration i" .
  with assms(5) i(1) have hi: "Count i + n \<le> max_int64" by simp
  from i(4) assms(4) have lo: "min_int64 \<le> Count i + n" by (simp add: min_int64_def)
  from young have rc: "record_count (Some i) now n window = i\<lparr>Count := Count i + n\<rparr>"
    by (simp add: record_count_def wrap64_id [OF lo hi])
  from i(4) have "Count i \<noteq> 0" by simp
  from counter_block_add [OF assms(2) Some i(2) this lo hi, of window] i assms(4) show ?thesis
    by (simp add: rel_count_def rc)
qed

lemma rel_rpm_expired:
  assumes "rel_rpm T limit (db r key) w" "T \<le> now" "live r now key = None"
  shows "filter (\<lambda>ts. now - ts < 60) (case w of None \<Rightarrow> [] | Some ts \<Rightarrow> ts) = []"
proof (cases "db r key")
  case None
  with assms(1) show ?thesis by (simp add: rel_rpm_def)
next
  case (Some e)
  with assms(1) obtain L where L: "content e = RList L" "L \<noteq> []" "expire_at e = Some (hd L + 60)"
    "sorted_wrt (\<lambda>a b. b \<le> a) L" "w = Some (rev (filter (\<lambda>ts. hd L - ts < 60) L))"
    by (auto simp: rel_rpm_def split: redis_value.splits)
  from Some L(3) assms(3) have old: "hd L + 60 \<le> now"
    by (simp add: live_def split: if_splits)
  have "\<not> now - x < 60" if "x \<in> set L" for x
    using sorted_desc_le_hd [OF L(4) that] old by simp
  then show ?thesis by (simp add: L(5) filter_empty_conv)
qed

lemma rel_rpm_live:
  assumes "rel_rpm T limit (db r key) w" "T \<le> now" "live r now key = Some e"
  shows "\<exists>L. content e = RList L \<and> L \<noteq> [] \<and> sorted_wrt (\<lambda>a b. b \<le> a) L \<and> hd L \<le> now \<and>
           int (length L) \<le> (if limit \<le> 0 then 1000 else limit) \<and>
           w = Some (rev (filter (\<lambda>ts. hd L - ts < 60) L)) \<and>
           filter (\<lambda>ts. now - ts < 60) (case w of None \<Rightarrow> [] | Some ts \<Rightarrow> ts) =
             rev (filter (\<lambda>ts. now - ts < 60) L)"
proof -
  from assms(3) have d: "db r key = Some e" by (rule live_Some_db)
  with assms(1) obtain L where L: "content e = RList L" "L \<noteq> []"
    "sorted_wrt (\<lambda>a b. b \<le> a) L" "hd L \<le> T"
    "int (length L) \<le> (if limit \<le> 0 then 1000 else limit)"
    "w = Some (rev (filter (\<lambda>ts. hd L - ts < 60) L))"
    by (auto simp: rel_rpm_def split: redis_value.splits)
  from L(4) assms(2) have h: "hd L \<le> now" by simp
  have "filter (\<lambda>ts. now - ts < 60) (rev (filter (\<lambda>ts. hd L - ts < 60) L)) =
        rev (filter (\<lambda>ts. now - ts < 60) L)"
    using h by (simp add: rev_filter [symmetric] conj_commute) (rule filter_cong, auto)
  with L h show ?thesis by simp
qed


lemma rel_rpm_block:
  assumes "rel_rpm T limit (db r key) w" "T \<le> now"
    and "\<not> fails r CmdLPush key" "\<not> fails r CmdLTrim key" "\<not> fails r CmdExpire key"
  shows "rel_rpm now limit (db (rpm_block r now key (if limit \<le> 0 then 1000 else limit)) key)
           (Some (recorded_window limit now (case w of None \<Rightarrow> [] | Some ts \<Rightarrow> ts)))"
proof -
  let ?cap = "if limit \<le> 0 then 1000 else limit"
  let ?old = "case w of None \<Rightarrow> [] | Some ts \<Rightarrow> ts"
  have cap: "0 < ?cap" by simp
  show ?thesis
  proof (cases "live r now key")
    case None
    then have "list_at r now key = Some []" by (simp add: list_at_def)
    from rpm_block_entry [OF assms(3,4,5) cap this]
    have d: "db (rpm_block r now key ?cap) key =
               Some \<lparr>content = RList [now], expire_at = Some (now + 60)\<rparr>"
      by (simp split: if_splits)
    from rel_rpm_expired [OF assms(1,2) None]
    have "recorded_window limit now ?old = [now]"
      by (simp add: recorded_window_def)
    with d show ?thesis by (simp add: rel_rpm_def)
  next
    case (Some e)
    from rel_rpm_live [OF assms(1,2) Some]
    obtain L where L: "content e = RList L" "L \<noteq> []" "sorted_wrt (\<lambda>a b. b \<le> a) L" "hd L \<le> now"
      "filter (\<lambda>ts. now - ts < 60) ?old = rev (filter (\<lambda>ts. now - ts < 60) L)"
      by blast
    from Some L(1) have "list_at r now key = Some L" by (simp add: list_at_def)
    from rpm_block_entry [OF assms(3,4,5) cap this]
    have d: "db (rpm_block r now key ?cap) key =
               Some \<lparr>content = RList (take (nat ?cap) (now # L)), expire_at = Some (now + 60)\<rparr>" .
    have srt: "sorted_wrt (\<lambda>a b. b \<le> a) (now # L)"
      using L(3,4) sorted_desc_le_hd [OF L(3)] by fastforce
    obtain k where k: "nat ?cap = Suc k" using cap by (cases "nat ?cap") auto
    have new: "filter (\<lambda>ts. now - ts < 60) ?old @ [now] =
                 rev (filter (\<lambda>ts. now - ts < 60) (now # L))"
      by (simp add: L(5))
    have "recorded_window limit now ?old =
            rev (take (nat ?cap) (filter (\<lambda>ts. now - ts < 60) (now # L)))"
      unfolding recorded_window_def Let_def new
      by (simp only: length_rev drop_rev_take)
    also have "\<dots> = rev (filter (\<lambda>ts. now - ts < 60) (take (nat ?cap) (now # L)))"
      by (simp only: take_filter_young [OF srt])
    finally have w': "recorded_window limit now ?old =
            rev (filter (\<lambda>ts. now - ts < 60) (take (nat ?cap) (now # L)))" .
    have hd: "hd (take (nat ?cap) (now # L)) = now" by (simp add: k)
    have ne: "take (nat ?cap) (now # L) \<noteq> []" by (simp add: k)
    have len: "int (length (take (nat ?cap) (now # L))) \<le> ?cap" by (simp only: length_take) auto
    show ?thesis
      unfolding d rel_rpm_def w'
      using hd ne len sorted_desc_take [OF srt, of "nat ?cap"]
      by (simp del: take_Suc_Cons)
  qed
qed


lemma LLen_LIndex_live:
  assumes "\<not> fails r CmdLLen key" "\<not> fails r CmdLIndex key"
    and "live r now key = Some e" "content e = RList L" "L \<noteq> []"
  shows "LLen r now key = Inr (int (length L))" "LIndex r now key (- 1) = Inr (last L)"
  using assms by (simp_all add: LLen_def LIndex_def Let_def last_conv_nth nat_diff_distrib')

lemma count_young:
  "count_recent now ts 0 = int (length (filter (\<lambda>ts. now - ts < 60) ts))"
  by (simp add: count_recent_filter)

lemma full_and_young:
  assumes "sorted_wrt (\<lambda>a b. b \<le> a) L" "L \<noteq> []" "int (length L) \<le> limit"
  shows "(limit \<le> int (length L) \<and> now - last L < 60) =
         (limit \<le> int (length (filter (\<lambda>ts. now - ts < (60::int)) L)))"
proof
  assume a: "limit \<le> int (length L) \<and> now - last L < 60"
  have "now - x < 60" if "x \<in> set L" for x
    using sorted_desc_last_le [OF assms(1) that] a by simp
  then have "filter (\<lambda>ts. now - ts < 60) L = L" by (simp add: filter_id_conv)
  with a show "limit \<le> int (length (filter (\<lambda>ts. now - ts < 60) L))" by simp
next
  assume b: "limit \<le> int (length (filter (\<lambda>ts. now - ts < 60) L))"
  have le: "length (filter (\<lambda>ts. now - ts < 60) L) \<le> length L" by (rule length_filter_le)
  have "now - x < 60" if "x \<in> set L" for x
  proof (rule ccontr)
    assume "\<not> now - x < 60"
    with that have "length (filter (\<lambda>ts. now - ts < 60) L) < length L"
      by (rule length_filter_less)
    with b assms(3) show False by simp
  qed
  moreover have "last L \<in> set L" using assms(2) by simp
  ultimately have "now - last L < 60" by blast
  moreover from b le have "limit \<le> int (length L)" by linarith
  ultimately show "limit \<le> int (length L) \<and> now - last L < 60" by simp
qed

lemma rel_rpm_check:
  assumes "rel_rpm T limit (db r key) w" "T \<le> now" "0 < limit"
    and "\<not> fails r CmdLLen key" "\<not> fails r CmdLIndex key"
  shows "(case LLen r now key of
            Inl err \<Rightarrow> False
          | Inr lenVal \<Rightarrow>
              limit \<le> lenVal \<and>
              (case LIndex r now key (- 1) of
                 Inl err \<Rightarrow> False
               | Inr oldTimeVal \<Rightarrow> now - oldTimeVal < 60)) =
         (case w of None \<Rightarrow> False | Some timestamps \<Rightarrow> limit \<le> count_recent now timestamps 0)"
proof (cases "live r now key")
  case None
  then have "LLen r now key = Inr 0" using assms(4) by (simp add: LLen_def)
  moreover from rel_rpm_expired [OF assms(1,2) None]
  have "(case w of None \<Rightarrow> False | Some ts \<Rightarrow> limit \<le> count_recent now ts 0) = False"
    using assms(3) by (simp add: count_young split: option.splits)
  ultimately show ?thesis using assms(3) by simp
next
  case (Some e)
  from rel_rpm_live [OF assms(1,2) Some]
  obtain L where L: "content e = RList L" "L \<noteq> []" "sorted_wrt (\<lambda>a b. b \<le> a) L"
    "int (length L) \<le> (if limit \<le> 0 then 1000 else limit)"
    "w = Some (rev (filter (\<lambda>ts. hd L - ts < 60) L))"
    "filter (\<lambda>ts. now - ts < 60) (case w of None \<Rightarrow> [] | Some ts \<Rightarrow> ts) =
       rev (filter (\<lambda>ts. now - ts < 60) L)"
    by blast
  from L(4) assms(3) have len: "int (length L) \<le> limit" by simp
  from L(5,6) have c: "count_recent now (rev (filter (\<lambda>ts. hd L - ts < 60) L)) 0 =
      int (length (filter (\<lambda>ts. now - ts < 60) L))"
    by (simp add: count_young)
  show ?thesis
    using full_and_young [OF L(3) L(2) len, of now]
    by (simp add: LLen_LIndex_live [OF assms(4,5) Some L(1,2)] L(5) c)
qed

lemma rel_rpm_usage:
  assumes "rel_rpm T limit (db r key) w" "T \<le> now" "\<not> fails r CmdLLen key"
  shows "result_or_zero (LLen r now key) =
           int (length (case live r now key of None \<Rightarrow> []
                        | Some e \<Rightarrow> (case content e of RList xs \<Rightarrow> xs | RInt _ \<Rightarrow> []))) \<and>
         (case w of None \<Rightarrow> 0 | Some timestamps \<Rightarrow> count_recent now timestamps 0) =
           int (length (filter (\<lambda>ts. now - ts < 60)
                  (case live r now key of None \<Rightarrow> []
                   | Some e \<Rightarrow> (case content e of RList xs \<Rightarrow> xs | RInt _ \<Rightarrow> []))))"
proof (cases "live r now key")
  case None
  then have "LLen r now key = Inr 0" using assms(3) by (simp add: LLen_def)
  moreover from rel_rpm_expired [OF assms(1,2) None]
  have "(case w of None \<Rightarrow> 0 | Some ts \<Rightarrow> count_recent now ts 0) = 0"
    by (simp add: count_young split: option.splits)
  ultimately show ?thesis by (simp add: result_or_zero_def None)
next
  case (Some e)
  from rel_rpm_live [OF assms(1,2) Some]
  obtain L where L: "content e = RList L"
    "w = Some (rev (filter (\<lambda>ts. hd L - ts < 60) L))"
    "filter (\<lambda>ts. now - ts < 60) (case w of None \<Rightarrow> [] | Some ts \<Rightarrow> ts) =
       rev (filter (\<lambda>ts. now - ts < 60) L)"
    by blast
  from L(2,3) have c: "count_recent now (rev (filter (\<lambda>ts. hd L - ts < 60) L)) 0 =
      int (length (filter (\<lambda>ts. now - ts < 60) L))"
    by (simp add: count_young)
  have "LLen r now key = Inr (int (length L))"
    using assms(3) Some L(1) by (simp add: LLen_def)
  then show ?thesis by (simp add: result_or_zero_def L(1,2) c Some)
qed

text \<open>All keys: what Check and GetUsage return, and what Record keeps.\<close>


lemma rel_rpm_mono: "rel_rpm T limit entry w \<Longrightarrow> T \<le> T' \<Longrightarrow> rel_rpm T' limit entry w"
  by (auto simp: rel_rpm_def split: option.splits redis_value.splits)

lemma related_mono: "related limit_of T r m \<Longrightarrow> T \<le> T' \<Longrightarrow> related limit_of T' r m"
  unfolding related_def using rel_rpm_mono by blast

lemma related_empty: "related limit_of T empty_rdb empty_memory"
  by (simp add: related_def healthy_def empty_rdb_def empty_memory_def rel_rpm_def rel_count_def)

lemma related_check:
  assumes "related limit_of T r m" "T \<le> now" "rpm = limit_of channelId modelName"
  shows "(checkChannelRateLimitRedis r now channelId modelName rpm tpm rpd = None) =
         (checkChannelRateLimitMemory m now channelId modelName rpm tpm rpd = None)"
proof -
  let ?kR = "redis_key ChannelRPMPrefix channelId modelName"
  let ?kT = "redis_key ChannelTPMPrefix channelId modelName"
  let ?kD = "redis_key ChannelRPDPrefix channelId modelName"
  let ?k = "memory_key channelId modelName"
  from assms(1) have h: "healthy r"
    and R: "rel_rpm T rpm (db r ?kR) (memoryRPMStore m ?k)"
    and T: "rel_count (db r ?kT) (memoryTPMStore m ?k)"
    and D: "rel_count (db r ?kD) (memoryRPDStore m ?k)"
    by (simp_all add: related_def assms(3))
  have rpm: "(case LLen r now ?kR of
            Inl err \<Rightarrow> False
          | Inr lenVal \<Rightarrow>
              rpm \<le> lenVal \<and>
              (case LIndex r now ?kR (- 1) of
                 Inl err \<Rightarrow> False
               | Inr oldTimeVal \<Rightarrow> now - oldTimeVal < 60)) =
         (case memoryRPMStore m ?k of None \<Rightarrow> False
          | Some timestamps \<Rightarrow> rpm \<le> count_recent now timestamps 0)" if "0 < rpm"
    using rel_rpm_check [OF R assms(2) that] h by (simp add: healthy_fails)
  have tpm: "(case Get r now ?kT of Inl err \<Rightarrow> False | Inr val \<Rightarrow> tpm \<le> val) =
      (case memoryTPMStore m ?k of None \<Rightarrow> False
       | Some item \<Rightarrow> now < Expiration item \<and> tpm \<le> Count item)"
    using rel_count_Get [OF T, of now] h by (simp add: healthy_fails split: option.splits)
  have rpd: "(case Get r now ?kD of Inl err \<Rightarrow> False | Inr val \<Rightarrow> rpd \<le> val) =
      (case memoryRPDStore m ?k of None \<Rightarrow> False
       | Some item \<Rightarrow> now < Expiration item \<and> rpd \<le> Count item)"
    using rel_count_Get [OF D, of now] h by (simp add: healthy_fails split: option.splits)
  show ?thesis
    unfolding checkChannelRateLimitRedis_def checkChannelRateLimitMemory_def Let_def tpm rpd
    using rpm by (cases "0 < rpm") auto
qed

lemma related_usage:
  assumes "related limit_of T r m" "T \<le> now"
  shows "fst (snd (getChannelRateLimitUsageRedis r now channelId modelName)) =
           fst (snd (getChannelRateLimitUsageMemory m now channelId modelName)) \<and>
         snd (snd (getChannelRateLimitUsageRedis r now channelId modelName)) =
           snd (snd (getChannelRateLimitUsageMemory m now channelId modelName)) \<and>
         fst (getChannelRateLimitUsageRedis r now channelId modelName) =
           int (length (case live r now (redis_key ChannelRPMPrefix channelId modelName) of
                          None \<Rightarrow> []
                        | Some e \<Rightarrow> (case content e of RList xs \<Rightarrow> xs | RInt _ \<Rightarrow> []))) \<and>
         fst (getChannelRateLimitUsageMemory m now channelId modelName) =
           int (length (filter (\<lambda>ts. now - ts < 60)
                  (case live r now (redis_key ChannelRPMPrefix channelId modelName) of
                     None \<Rightarrow> []
                   | Some e \<Rightarrow> (case content e of RList xs \<Rightarrow> xs | RInt _ \<Rightarrow> []))))"
proof -
  let ?kR = "redis_key ChannelRPMPrefix channelId modelName"
  let ?kT = "redis_key ChannelTPMPrefix channelId modelName"
  let ?kD = "redis_key ChannelRPDPrefix channelId modelName"
  let ?k = "memory_key channelId modelName"
  from assms(1) have h: "healthy r"
    and R: "rel_rpm T (limit_of channelId modelName) (db r ?kR) (memoryRPMStore m ?k)"
    and T: "rel_count (db r ?kT) (memoryTPMStore m ?k)"
    and D: "rel_count (db r ?kD) (memoryRPDStore m ?k)"
    by (simp_all add: related_def)
  have tpm: "result_or_zero (Get r now ?kT) =
      (case memoryTPMStore m ?k of None \<Rightarrow> 0
       | Some item \<Rightarrow> if now < Expiration item then Count item else 0)"
    using rel_count_Get [OF T, of now] h
    by (simp add: healthy_fails result_or_zero_def split: option.splits)
  have rpd: "result_or_zero (Get r now ?kD) =
      (case memoryRPDStore m ?k of None \<Rightarrow> 0
       | Some item \<Rightarrow> if now < Expiration item then Count item else 0)"
    using rel_count_Get [OF D, of now] h
    by (simp add: healthy_fails result_or_zero_def split: option.splits)
  have "\<not> fails r CmdLLen ?kR" using h by (simp add: healthy_fails)
  from rel_rpm_usage [OF R assms(2) this] tpm rpd show ?thesis
    by (simp add: getChannelRateLimitUsageRedis_def getChannelRateLimitUsageMemory_def Let_def)
qed


lemma recordChannelRateLimitRedis_other:
  assumes "k \<noteq> redis_key ChannelRPMPrefix channelId modelName"
    "k \<noteq> redis_key ChannelRPDPrefix channelId modelName"
    "k \<noteq> redis_key ChannelTPMPrefix channelId modelName"
  shows "db (recordChannelRateLimitRedis r now channelId modelName rpm tpm rpd tokens) k = db r k"
  using assms
  by (simp add: recordChannelRateLimitRedis_blocks Let_def counter_block_frame rpm_block_frame)

lemma related_record:
  assumes "related limit_of T r m" "T \<le> now" "rpm = limit_of channelId modelName"
    and "fits m now (Record channelId modelName rpm tpm rpd tokens)"
  shows "\<exists>m'. recordChannelRateLimitMemory m now channelId modelName rpm tpm rpd tokens = Inr m' \<and>
           related limit_of now
             (recordChannelRateLimitRedis r now channelId modelName rpm tpm rpd tokens) m'"
proof -
  let ?kR = "redis_key ChannelRPMPrefix channelId modelName"
  let ?kT = "redis_key ChannelTPMPrefix channelId modelName"
  let ?kD = "redis_key ChannelRPDPrefix channelId modelName"
  let ?k = "memory_key channelId modelName"
  let ?cap = "if rpm \<le> 0 then 1000 else rpm"
  let ?r3 = "rpm_block r now ?kR ?cap"
  let ?r4 = "counter_block ?r3 now ?kD 1 (24 * 3600)"
  let ?r' = "recordChannelRateLimitRedis r now channelId modelName rpm tpm rpd tokens"
  let ?m' = "\<lparr>memoryRPMStore =
            (memoryRPMStore m)(?k \<mapsto>
               recorded_window rpm now (case memoryRPMStore m ?k of None \<Rightarrow> [] | Some ts \<Rightarrow> ts)),
          memoryTPMStore =
            (if tokens > 0
             then (memoryTPMStore m)(?k \<mapsto> record_count (memoryTPMStore m ?k) now tokens 60)
             else memoryTPMStore m),
          memoryRPDStore =
            (memoryRPDStore m)(?k \<mapsto> record_count (memoryRPDStore m ?k) now 1 (24 * 3600))\<rparr>"
  from assms(1) have h: "healthy r" by (simp add: related_def)
  have f3: "fails ?r3 = fails r" by (simp add: rpm_block_frame)
  have f4: "fails ?r4 = fails r" by (simp add: counter_block_frame rpm_block_frame)
  have h': "healthy ?r'" using h by (simp add: healthy_def recordChannelRateLimitRedis_fails)
  have own_R: "rel_rpm now rpm (db ?r' ?kR) (memoryRPMStore ?m' ?k)"
  proof -
    from assms(1) have "rel_rpm T rpm (db r ?kR) (memoryRPMStore m ?k)"
      by (simp add: related_def assms(3))
    from rel_rpm_block [OF this assms(2)] h show ?thesis
      by (simp add: recordChannelRateLimitRedis_rpm_key healthy_fails)
  qed
  have own_D: "rel_count (db ?r' ?kD) (memoryRPDStore ?m' ?k)"
  proof -
    from assms(1) have "rel_count (db r ?kD) (memoryRPDStore m ?k)"
      by (simp add: related_def)
    then have "rel_count (db ?r3 ?kD) (memoryRPDStore m ?k)"
      by (simp add: rpm_block_frame redis_key_prefix)
    moreover have "\<not> fails ?r3 CmdIncrBy ?kD" "\<not> fails ?r3 CmdExpire ?kD"
      using h by (simp_all only: f3 healthy_fails not_False_eq_True)
    moreover from assms(4)
    have "case memoryRPDStore m ?k of None \<Rightarrow> True
          | Some i \<Rightarrow> Expiration i \<le> now \<or> Count i + 1 \<le> max_int64"
      by simp
    ultimately
    have "rel_count (db ?r4 ?kD) (Some (record_count (memoryRPDStore m ?k) now 1 (24 * 3600)))"
      by (intro rel_count_block) simp_all
    moreover have "db ?r' ?kD = db ?r4 ?kD"
      by (simp add: recordChannelRateLimitRedis_blocks Let_def counter_block_frame redis_key_prefix)
    ultimately show ?thesis by simp
  qed
  have own_T: "rel_count (db ?r' ?kT) (memoryTPMStore ?m' ?k)"
  proof -
    from assms(1) have "rel_count (db r ?kT) (memoryTPMStore m ?k)"
      by (simp add: related_def)
    then have 4: "rel_count (db ?r4 ?kT) (memoryTPMStore m ?k)"
      by (simp add: rpm_block_frame counter_block_frame redis_key_prefix)
    show ?thesis
    proof (cases "tokens > 0")
      case True
      have "\<not> fails ?r4 CmdIncrBy ?kT" "\<not> fails ?r4 CmdExpire ?kT"
        using h by (simp_all only: f4 healthy_fails not_False_eq_True)
      moreover from assms(4) True
      have "case memoryTPMStore m ?k of None \<Rightarrow> True
            | Some i \<Rightarrow> Expiration i \<le> now \<or> Count i + tokens \<le> max_int64"
        by (simp split: option.splits)
      ultimately
      have "rel_count (db (counter_block ?r4 now ?kT tokens 60) ?kT)
              (Some (record_count (memoryTPMStore m ?k) now tokens 60))"
        using 4 True by (intro rel_count_block)
      with True show ?thesis by (simp add: recordChannelRateLimitRedis_blocks Let_def)
    next
      case False
      with 4 show ?thesis by (simp add: recordChannelRateLimitRedis_blocks Let_def)
    qed
  qed
  have other: "rel_rpm now (limit_of c mo) (db ?r' (redis_key ChannelRPMPrefix c mo))
                 (memoryRPMStore ?m' (memory_key c mo)) \<and>
               rel_count (db ?r' (redis_key ChannelTPMPrefix c mo)) (memoryTPMStore ?m' (memory_key c mo)) \<and>
               rel_count (db ?r' (redis_key ChannelRPDPrefix c mo)) (memoryRPDStore ?m' (memory_key c mo))"
    if ne: "(c, mo) \<noteq> (channelId, modelName)" for c mo
  proof -
    from ne have k: "memory_key c mo \<noteq> ?k" by (simp add: memory_key_inj)
    from ne have kk: "redis_key p c mo \<noteq> redis_key p channelId modelName" for p
      by (simp add: redis_key_inj)
    have "db ?r' (redis_key ChannelRPMPrefix c mo) = db r (redis_key ChannelRPMPrefix c mo)"
      "db ?r' (redis_key ChannelTPMPrefix c mo) = db r (redis_key ChannelTPMPrefix c mo)"
      "db ?r' (redis_key ChannelRPDPrefix c mo) = db r (redis_key ChannelRPDPrefix c mo)"
      by (simp_all add: recordChannelRateLimitRedis_other kk redis_key_prefix)
    moreover from assms(1) have
      "rel_rpm T (limit_of c mo) (db r (redis_key ChannelRPMPrefix c mo))
         (memoryRPMStore m (memory_key c mo))"
      "rel_count (db r (redis_key ChannelTPMPrefix c mo)) (memoryTPMStore m (memory_key c mo))"
      "rel_count (db r (redis_key ChannelRPDPrefix c mo)) (memoryRPDStore m (memory_key c mo))"
      by (simp_all add: related_def)
    ultimately show ?thesis using k rel_rpm_mono [OF _ assms(2)] by simp
  qed
  have "related limit_of now ?r' ?m'"
    unfolding related_def
  proof (intro conjI allI)
    show "healthy ?r'" by (rule h')
  next
    fix c mo
    show "rel_rpm now (limit_of c mo) (db ?r' (redis_key ChannelRPMPrefix c mo))
            (memoryRPMStore ?m' (memory_key c mo))"
      using other [of c mo] own_R assms(3) by (cases "(c, mo) = (channelId, modelName)") auto
  next
    fix c mo
    show "rel_count (db ?r' (redis_key ChannelTPMPrefix c mo)) (memoryTPMStore ?m' (memory_key c mo))"
      using other [of c mo] own_T by (cases "(c, mo) = (channelId, modelName)") auto
  next
    fix c mo
    show "rel_count (db ?r' (redis_key ChannelRPDPrefix c mo)) (memoryRPDStore ?m' (memory_key c mo))"
      using other [of c mo] own_D by (cases "(c, mo) = (channelId, modelName)") auto
  qed
  then show ?thesis by (simp only: recordChannelRateLimitMemory_Inr) blast
qed

text \<open>Scripts: the correspondence holds at the start and every call keeps it.\<close>


lemma run_Cons:
  "run s ((now, c) # script) =
     (fst (exec s now c) # fst (run (snd (exec s now c)) script),
      snd (run (snd (exec s now c)) script))"
proof -
  obtain out s' where e: "exec s now c = (out, s')" by (cases "exec s now c")
  with exec_not_Panicked [of s now c] have "\<And>p. out \<noteq> Panicked p" by simp
  with e show ?thesis by (cases out) (auto split: prod.splits)
qed

lemma exec_fits:
  assumes "RedisEnabled sr" "\<not> RedisEnabled sm" "related limit_of T (RDB sr) (mem sm)"
    and "T \<le> now" "steady limit_of c" "fits (mem sm) now c"
  shows "agree_at sr now c (fst (exec sr now c)) (fst (exec sm now c)) \<and>
         RedisEnabled (snd (exec sr now c)) \<and> \<not> RedisEnabled (snd (exec sm now c)) \<and>
         related limit_of now (RDB (snd (exec sr now c))) (mem (snd (exec sm now c)))"
proof (cases c)
  case (Check channelId modelName rpm tpm rpd)
  with assms(5) have "rpm = limit_of channelId modelName" by simp
  from related_check [OF assms(3,4) this, of tpm rpd]
    related_mono [OF assms(3,4)] assms(1,2) Check
  show ?thesis by (simp add: exec_def CheckChannelRateLimit_def)
next
  case (Record channelId modelName rpm tpm rpd tokens)
  with assms(5) have l: "rpm = limit_of channelId modelName" by simp
  from assms(6) Record
  have "fits (mem sm) now (Record channelId modelName rpm tpm rpd tokens)" by simp
  from related_record [OF assms(3,4) l this] assms(1,2) Record
  show ?thesis by (auto simp: exec_def RecordChannelRateLimit_def)
next
  case (GetUsage channelId modelName)
  from related_usage [OF assms(3,4), of channelId modelName]
    related_mono [OF assms(3,4)] assms(1,2) GetUsage
  show ?thesis
    by (auto simp: exec_def GetChannelRateLimitUsage_def stored_rpm_def split: prod.splits)
qed

lemma run_agree:
  assumes "RedisEnabled sr" "\<not> RedisEnabled sm" "related limit_of T (RDB sr) (mem sm)"
    and "sorted (map fst script)"
    and "\<forall>x \<in> set script. T \<le> fst x \<and> steady limit_of (snd x)"
    and "counts_fit sm script"
  shows "agree_along sr sm script"
  using assms
proof (induction script arbitrary: sr sm T)
  case Nil
  show ?case by simp
next
  case (Cons a script)
  obtain now c where a: "a = (now, c)" by (cases a)
  from Cons.prems(5) a have T: "T \<le> now" and st: "steady limit_of c" by simp_all
  from Cons.prems(4) a have srt: "sorted (map fst script)" and
    later: "\<forall>x \<in> set script. now \<le> fst x" by auto
  from Cons.prems(5) later have rest: "\<forall>x \<in> set script. now \<le> fst x \<and> steady limit_of (snd x)"
    by simp
  from Cons.prems(6) a have f: "fits (mem sm) now c"
    and fr: "counts_fit (snd (exec sm now c)) script" by simp_all
  from exec_fits [OF Cons.prems(1,2,3) T st f] Cons.IH [OF _ _ _ srt rest fr]
  show ?case by (simp add: a)
qed

subsection \<open>The two backends, script by script\<close>

text \<open>
  Claim C1 says that the two backends return the same results at every step of every
  script. They do not. GetUsage of the Redis backend returns the length of the list,
  whatever the age of its entries, and the memory backend counts the entries younger than
  60 seconds: after Records at 1000 and 1030, GetUsage at 1061 returns an \<open>rpm\<close> of 2 in
  the Redis backend and of 1 in the memory backend. And Check of the Redis backend looks
  at the oldest entry of the list, which is the oldest of the last \<open>rpm\<close> requests only
  when the list was trimmed to \<open>rpm\<close>: after three Records without an RPM limit at 1000,
  1050 and 1055, a Check at 1061 with a limit of 2 passes in the Redis backend and is
  saturated in the memory backend. And the counters of the memory backend wrap around
  where the Redis store refuses the sum: after two Records of 9223372036854775807 tokens
  at 1000 and 1001, GetUsage at 1002 returns a \<open>tpm\<close> of 9223372036854775807 in the Redis
  backend and of -2 in the memory backend, and a Check with a TPM limit of 10 is
  saturated in the Redis backend and passes in the memory backend.
\<close>

theorem backends_differ_counterexample:
  "fst (run redis_limiter
          [(1000, Record 1 ''m'' 0 0 0 0), (1030, Record 1 ''m'' 0 0 0 0), (1061, GetUsage 1 ''m'')]) =
     [Recorded, Recorded, Usage 2 0 2] \<and>
   fst (run memory_limiter
          [(1000, Record 1 ''m'' 0 0 0 0), (1030, Record 1 ''m'' 0 0 0 0), (1061, GetUsage 1 ''m'')]) =
     [Recorded, Recorded, Usage 1 0 2] \<and>
   fst (run redis_limiter
          [(1000, Record 1 ''m'' 0 0 0 0), (1050, Record 1 ''m'' 0 0 0 0),
           (1055, Record 1 ''m'' 0 0 0 0), (1061, Check 1 ''m'' 2 0 0)]) =
     [Recorded, Recorded, Recorded, Checked None] \<and>
   fst (run memory_limiter
          [(1000, Record 1 ''m'' 0 0 0 0), (1050, Record 1 ''m'' 0 0 0 0),
           (1055, Record 1 ''m'' 0 0 0 0), (1061, Check 1 ''m'' 2 0 0)]) =
     [Recorded, Recorded, Recorded, Checked (Some (Saturated RPM))] \<and>
   fst (run redis_limiter
          [(1000, Record 1 ''m'' 0 10 0 9223372036854775807),
           (1001, Record 1 ''m'' 0 10 0 9223372036854775807),
           (1002, GetUsage 1 ''m''), (1002, Check 1 ''m'' 0 10 0)]) =
     [Recorded, Recorded, Usage 2 9223372036854775807 2, Checked (Some (Saturated TPM))] \<and>
   fst (run memory_limiter
          [(1000, Record 1 ''m'' 0 10 0 9223372036854775807),
           (1001, Record 1 ''m'' 0 10 0 9223372036854775807),
           (1002, GetUsage 1 ''m''), (1002, Check 1 ''m'' 0 10 0)]) =
     [Recorded, Recorded, Usage 2 (- 2) 2, Checked None]"
proof -
  have 1: "fst (run redis_limiter
          [(1000, Record 1 ''m'' 0 0 0 0), (1030, Record 1 ''m'' 0 0 0 0), (1061, GetUsage 1 ''m'')]) =
     [Recorded, Recorded, Usage 2 0 2]"
    by (simp add: redis_run_simps)
  have 2: "fst (run memory_limiter
          [(1000, Record 1 ''m'' 0 0 0 0), (1030, Record 1 ''m'' 0 0 0 0), (1061, GetUsage 1 ''m'')]) =
     [Recorded, Recorded, Usage 1 0 2]"
    by (simp add: memory_run_simps)
  have 3: "fst (run redis_limiter
          [(1000, Record 1 ''m'' 0 0 0 0), (1050, Record 1 ''m'' 0 0 0 0),
           (1055, Record 1 ''m'' 0 0 0 0), (1061, Check 1 ''m'' 2 0 0)]) =
     [Recorded, Recorded, Recorded, Checked None]"
    by (simp add: redis_run_simps)
  have 4: "fst (run memory_limiter
          [(1000, Record 1 ''m'' 0 0 0 0), (1050, Record 1 ''m'' 0 0 0 0),
           (1055, Record 1 ''m'' 0 0 0 0), (1061, Check 1 ''m'' 2 0 0)]) =
     [Recorded, Recorded, Recorded, Checked (Some (Saturated RPM))]"
    by (simp add: memory_run_simps)
  have 5: "fst (run redis_limiter
          [(1000, Record 1 ''m'' 0 10 0 9223372036854775807),
           (1001, Record 1 ''m'' 0 10 0 9223372036854775807),
           (1002, GetUsage 1 ''m''), (1002, Check 1 ''m'' 0 10 0)]) =
     [Recorded, Recorded, Usage 2 9223372036854775807 2, Checked (Some (Saturated TPM))]"
    by (simp add: redis_run_simps)
  have 6: "fst (run memory_limiter
          [(1000, Record 1 ''m'' 0 10 0 9223372036854775807),
           (1001, Record 1 ''m'' 0 10 0 9223372036854775807),
           (1002, GetUsage 1 ''m''), (1002, Check 1 ''m'' 0 10 0)]) =
     [Recorded, Recorded, Usage 2 (- 2) 2, Checked None]"
    by (simp add: memory_run_simps)
  from 1 2 3 4 5 6 show ?thesis by blast
qed

text \<open>
  Claim C1, amended. For every script whose times do not decrease, whose calls pass, for
  each pair, one and the same RPM limit, and whose Records add no counter up beyond the
  signed 64-bit range (\<open>counts_fit\<close>): run from the empty stores, on a Redis store that
  executes its commands, the two backends agree at every step. Record returns nothing in
  both, Check is saturated in the Redis backend iff it is in the memory backend, and
  GetUsage returns the same \<open>tpm\<close> and the same \<open>rpd\<close> in both; its \<open>rpm\<close> is, in the Redis
  backend, the length of the list stored for the pair and, in the memory backend, the
  number of the entries of that list that are younger than 60 seconds.
\<close>

theorem backends_agree:
  assumes "sorted (map fst script)"
    and "\<forall>x \<in> set script. steady limit_of (snd x)"
    and "counts_fit memory_limiter script"
  shows "agree_along redis_limiter memory_limiter script"
proof (cases script)
  case Nil
  then show ?thesis by simp
next
  case (Cons a rest)
  with assms(1) have "\<forall>x \<in> set script. fst a \<le> fst x" by auto
  with assms(2) have "\<forall>x \<in> set script. fst a \<le> fst x \<and> steady limit_of (snd x)" by simp
  moreover have "related limit_of (fst a) (RDB redis_limiter) (mem memory_limiter)"
    by (simp add: redis_limiter_def memory_limiter_def related_empty)
  moreover have "RedisEnabled redis_limiter" "\<not> RedisEnabled memory_limiter"
    by (simp_all add: redis_limiter_def memory_limiter_def)
  ultimately show ?thesis using assms(1,3) by (intro run_agree)
qed

text \<open>
  A script with the limits 2, 10 and 5 throughout: both backends are saturated at 1040
  and pass at 1061, where GetUsage returns (2, 0, 2) in the Redis backend, which holds
  the list 1030, 1000, and (1, 0, 2) in the memory backend.
\<close>

theorem backends_agree_witness:
  "sorted (map fst
     [(1000, Record 1 ''m'' 2 10 5 4), (1030, Record 1 ''m'' 2 10 5 6),
      (1040, Check 1 ''m'' 2 10 5), (1061, GetUsage 1 ''m''), (1061 :: int, Check 1 ''m'' 2 10 5)]) \<and>
   counts_fit memory_limiter
     [(1000, Record 1 ''m'' 2 10 5 4), (1030, Record 1 ''m'' 2 10 5 6),
      (1040, Check 1 ''m'' 2 10 5), (1061, GetUsage 1 ''m''), (1061, Check 1 ''m'' 2 10 5)] \<and>
   agree_along redis_limiter memory_limiter
     [(1000, Record 1 ''m'' 2 10 5 4), (1030, Record 1 ''m'' 2 10 5 6),
      (1040, Check 1 ''m'' 2 10 5), (1061, GetUsage 1 ''m''), (1061, Check 1 ''m'' 2 10 5)] \<and>
   fst (run redis_limiter
        [(1000, Record 1 ''m'' 2 10 5 4), (1030, Record 1 ''m'' 2 10 5 6),
         (1040, Check 1 ''m'' 2 10 5), (1061, GetUsage 1 ''m''), (1061, Check 1 ''m'' 2 10 5)]) =
     [Recorded, Recorded, Checked (Some (Saturated RPM)), Usage 2 0 2, Checked None] \<and>
   fst (run memory_limiter
        [(1000, Record 1 ''m'' 2 10 5 4), (1030, Record 1 ''m'' 2 10 5 6),
         (1040, Check 1 ''m'' 2 10 5), (1061, GetUsage 1 ''m''), (1061, Check 1 ''m'' 2 10 5)]) =
     [Recorded, Recorded, Checked (Some (Saturated RPM)), Usage 1 0 2, Checked None]"
proof -
  let ?script = "[(1000, Record 1 ''m'' 2 10 5 4), (1030, Record 1 ''m'' 2 10 5 6),
      (1040, Check 1 ''m'' 2 10 5), (1061, GetUsage 1 ''m''), (1061 :: int, Check 1 ''m'' 2 10 5)]"
  have s: "sorted (map fst ?script)" by simp
  have l: "\<forall>x \<in> set ?script. steady (\<lambda>channelId modelName. 2) (snd x)" by simp
  have f: "counts_fit memory_limiter ?script" by (simp add: memory_run_simps max_int64_def)
  have r: "fst (run redis_limiter ?script) =
      [Recorded, Recorded, Checked (Some (Saturated RPM)), Usage 2 0 2, Checked None]"
    by (simp add: redis_run_simps)
  have m: "fst (run memory_limiter ?script) =
      [Recorded, Recorded, Checked (Some (Saturated RPM)), Usage 1 0 2, Checked None]"
    by (simp add: memory_run_simps)
  from backends_agree [OF s l f] s f r m show ?thesis by blast
qed

subsection \<open>The order of the three checks\<close>

text \<open>
  Claim C2 says that both backends check RPM, then RPD, then TPM. The Redis backend does;
  the memory backend checks RPM, then TPM, then RPD. After one Record of 5 tokens, a limit
  of 1 request a day and a limit of 5 tokens a minute are both reached; asked for both, the
  memory backend returns at the TPM statement, where the order of the claim gives RPD.
\<close>

theorem memory_check_order_counterexample:
  "fst (run memory_limiter
          [(0, Record 1 ''m'' 0 0 0 5),
           (1, Check 1 ''m'' 0 0 1), (1, Check 1 ''m'' 0 5 0), (1, Check 1 ''m'' 0 5 1)]) =
     [Recorded, Checked (Some (Saturated RPD)), Checked (Some (Saturated TPM)),
      Checked (Some (Saturated TPM))]"
  by (simp add: memory_run_simps)

text \<open>Each block of a Check returns iff its dimension has reached its limit.\<close>

lemma redis_rpm_block_reached:
  "(0 < rpm \<and>
    (case LLen r now (redis_key ChannelRPMPrefix channelId modelName) of
       Inl err \<Rightarrow> False
     | Inr lenVal \<Rightarrow>
         rpm \<le> lenVal \<and>
         (case LIndex r now (redis_key ChannelRPMPrefix channelId modelName) (- 1) of
            Inl err \<Rightarrow> False
          | Inr oldTimeVal \<Rightarrow> now - oldTimeVal < 60))) =
   redis_rpm_reached (redis_rpm_data r channelId modelName) now rpm"
proof -
  have "xs ! nat (int (length xs) - 1) = last xs" if "xs \<noteq> []" for xs :: "int list"
    using that by (simp add: last_conv_nth nat_diff_distrib')
  moreover have "xs \<noteq> []" if "0 < rpm" "rpm \<le> int (length xs)" for xs :: "int list"
    using that by auto
  ultimately show ?thesis
    by (auto simp: redis_rpm_reached_def redis_rpm_data_def unexpired_def LLen_def LIndex_def
        live_def Let_def split: option.splits redis_value.splits if_splits)
qed

lemma redis_count_block_reached:
  "(0 < limit \<and>
    (case Get r now (redis_key prefix channelId modelName) of
       Inl err \<Rightarrow> False
     | Inr val \<Rightarrow> limit \<le> val)) =
   redis_count_reached (redis_count_data r prefix channelId modelName) now limit"
  by (auto simp: redis_count_reached_def redis_count_data_def unexpired_def Get_def live_def
      split: option.splits redis_value.splits if_splits)

lemma redis_first_reached:
  "checkChannelRateLimitRedis r now channelId modelName rpm tpm rpd =
     first_reached
       [(RPM, redis_rpm_reached (redis_rpm_data r channelId modelName) now rpm),
        (RPD, redis_count_reached (redis_count_data r ChannelRPDPrefix channelId modelName) now rpd),
        (TPM, redis_count_reached (redis_count_data r ChannelTPMPrefix channelId modelName) now tpm)]"
  unfolding checkChannelRateLimitRedis_def Let_def
  by (simp only: redis_rpm_block_reached redis_count_block_reached first_reached.simps)

lemma memory_rpm_block_reached:
  "(0 < rpm \<and>
    (case memoryRPMStore m key of
       None \<Rightarrow> False
     | Some timestamps \<Rightarrow> rpm \<le> count_recent now timestamps 0)) =
   memory_rpm_reached (memoryRPMStore m key) now rpm"
  by (simp add: memory_rpm_reached_def count_young split: option.splits)

lemma memory_first_reached:
  "checkChannelRateLimitMemory m now channelId modelName rpm tpm rpd =
     first_reached
       [(RPM, memory_rpm_reached (memoryRPMStore m (memory_key channelId modelName)) now rpm),
        (TPM, memory_count_reached (memoryTPMStore m (memory_key channelId modelName)) now tpm),
        (RPD, memory_count_reached (memoryRPDStore m (memory_key channelId modelName)) now rpd)]"
  by (simp add: checkChannelRateLimitMemory_def Let_def memory_rpm_reached_def
      memory_count_reached_def count_young split: option.splits)

text \<open>
  Claim C2, amended. Check returns the failure of the first dimension that has reached its
  limit (as the stores tell: \<open>redis_rpm_reached\<close>, \<open>redis_count_reached\<close>,
  \<open>memory_rpm_reached\<close>, \<open>memory_count_reached\<close>), in the order RPM, RPD, TPM in the Redis
  backend and in the order RPM, TPM, RPD in the memory backend, and returns no failure
  when no dimension has. The dimensions after the first that has reached its limit are
  not consulted: with RPM at its limit, Check returns at the RPM statement in every store
  that holds the same RPM data, whatever it holds for the other two dimensions, whether
  their reads fail or not, and whatever their limits are; with RPM below its limit and
  the second dimension at its limit, Check returns at the statement of the second
  dimension in every store that holds the same data for these two dimensions, whatever it
  holds for the third and whatever the limit of the third is.
\<close>

theorem check_order:
  "checkChannelRateLimitRedis r now channelId modelName rpm tpm rpd =
     first_reached
       [(RPM, redis_rpm_reached (redis_rpm_data r channelId modelName) now rpm),
        (RPD, redis_count_reached (redis_count_data r ChannelRPDPrefix channelId modelName) now rpd),
        (TPM, redis_count_reached (redis_count_data r ChannelTPMPrefix channelId modelName) now tpm)] \<and>
   checkChannelRateLimitMemory m now channelId modelName rpm tpm rpd =
     first_reached
       [(RPM, memory_rpm_reached (memoryRPMStore m (memory_key channelId modelName)) now rpm),
        (TPM, memory_count_reached (memoryTPMStore m (memory_key channelId modelName)) now tpm),
        (RPD, memory_count_reached (memoryRPDStore m (memory_key channelId modelName)) now rpd)] \<and>
   (redis_rpm_reached (redis_rpm_data r channelId modelName) now rpm \<and>
    redis_rpm_data r' channelId modelName = redis_rpm_data r channelId modelName \<longrightarrow>
      checkChannelRateLimitRedis r' now channelId modelName rpm tpm' rpd' = Some (Saturated RPM)) \<and>
   (\<not> redis_rpm_reached (redis_rpm_data r channelId modelName) now rpm \<and>
    redis_count_reached (redis_count_data r ChannelRPDPrefix channelId modelName) now rpd \<and>
    redis_rpm_data r' channelId modelName = redis_rpm_data r channelId modelName \<and>
    redis_count_data r' ChannelRPDPrefix channelId modelName =
      redis_count_data r ChannelRPDPrefix channelId modelName \<longrightarrow>
      checkChannelRateLimitRedis r' now channelId modelName rpm tpm' rpd = Some (Saturated RPD)) \<and>
   (memory_rpm_reached (memoryRPMStore m (memory_key channelId modelName)) now rpm \<and>
    memoryRPMStore m' (memory_key channelId modelName) =
      memoryRPMStore m (memory_key channelId modelName) \<longrightarrow>
      checkChannelRateLimitMemory m' now channelId modelName rpm tpm' rpd' = Some (Saturated RPM)) \<and>
   (\<not> memory_rpm_reached (memoryRPMStore m (memory_key channelId modelName)) now rpm \<and>
    memory_count_reached (memoryTPMStore m (memory_key channelId modelName)) now tpm \<and>
    memoryRPMStore m' (memory_key channelId modelName) =
      memoryRPMStore m (memory_key channelId modelName) \<and>
    memoryTPMStore m' (memory_key channelId modelName) =
      memoryTPMStore m (memory_key channelId modelName) \<longrightarrow>
      checkChannelRateLimitMemory m' now channelId modelName rpm tpm rpd' = Some (Saturated TPM))"
proof -
  have 1: "checkChannelRateLimitRedis r' now channelId modelName rpm tpm' rpd' = Some (Saturated RPM)"
    if "redis_rpm_reached (redis_rpm_data r channelId modelName) now rpm"
      "redis_rpm_data r' channelId modelName = redis_rpm_data r channelId modelName"
    using that by (simp add: redis_first_reached)
  have 2: "checkChannelRateLimitRedis r' now channelId modelName rpm tpm' rpd = Some (Saturated RPD)"
    if "\<not> redis_rpm_reached (redis_rpm_data r channelId modelName) now rpm"
      "redis_count_reached (redis_count_data r ChannelRPDPrefix channelId modelName) now rpd"
      "redis_rpm_data r' channelId modelName = redis_rpm_data r channelId modelName"
      "redis_count_data r' ChannelRPDPrefix channelId modelName =
         redis_count_data r ChannelRPDPrefix channelId modelName"
    using that by (simp add: redis_first_reached)
  have 3: "checkChannelRateLimitMemory m' now channelId modelName rpm tpm' rpd' = Some (Saturated RPM)"
    if "memory_rpm_reached (memoryRPMStore m (memory_key channelId modelName)) now rpm"
      "memoryRPMStore m' (memory_key channelId modelName) =
         memoryRPMStore m (memory_key channelId modelName)"
    using that by (simp add: memory_first_reached)
  have 4: "checkChannelRateLimitMemory m' now channelId modelName rpm tpm rpd' = Some (Saturated TPM)"
    if "\<not> memory_rpm_reached (memoryRPMStore m (memory_key channelId modelName)) now rpm"
      "memory_count_reached (memoryTPMStore m (memory_key channelId modelName)) now tpm"
      "memoryRPMStore m' (memory_key channelId modelName) =
         memoryRPMStore m (memory_key channelId modelName)"
      "memoryTPMStore m' (memory_key channelId modelName) =
         memoryTPMStore m (memory_key channelId modelName)"
    using that by (simp add: memory_first_reached)
  from 1 2 3 4 redis_first_reached [of r now channelId modelName rpm tpm rpd]
    memory_first_reached [of m now channelId modelName rpm tpm rpd]
  show ?thesis by blast
qed

text \<open>
  With all three dimensions at their limits (\<open>failing_reads\<close> with its reads working, and
  \<open>busy_memory\<close>), both backends return at the RPM statement, the Redis backend also when
  the reads of the counters fail, and the memory backend also when it holds no counters.
  Without an RPM limit the Redis backend returns at the RPD statement, also when it holds
  no TPM counter, and the memory backend at the TPM statement, also when it holds no RPD
  counter.
\<close>

theorem check_order_witness:
  "redis_rpm_reached (redis_rpm_data (failing_reads\<lparr>fails := (\<lambda>cmd key. False)\<rparr>) 7 ''gpt-4'') 103 3 \<and>
   redis_count_reached
     (redis_count_data (failing_reads\<lparr>fails := (\<lambda>cmd key. False)\<rparr>) ChannelRPDPrefix 7 ''gpt-4'') 103 3 \<and>
   redis_count_reached
     (redis_count_data (failing_reads\<lparr>fails := (\<lambda>cmd key. False)\<rparr>) ChannelTPMPrefix 7 ''gpt-4'') 103 9000 \<and>
   checkChannelRateLimitRedis (failing_reads\<lparr>fails := (\<lambda>cmd key. False)\<rparr>) 103 7 ''gpt-4'' 3 9000 3 =
     Some (Saturated RPM) \<and>
   checkChannelRateLimitRedis (failing_reads\<lparr>fails := (\<lambda>cmd key. cmd = CmdGet)\<rparr>) 103 7 ''gpt-4'' 3 1 1 =
     Some (Saturated RPM) \<and>
   checkChannelRateLimitRedis (failing_reads\<lparr>fails := (\<lambda>cmd key. False)\<rparr>) 103 7 ''gpt-4'' 0 9000 3 =
     Some (Saturated RPD) \<and>
   checkChannelRateLimitRedis
     (failing_reads\<lparr>fails := (\<lambda>cmd key. key = redis_key ChannelTPMPrefix 7 ''gpt-4'')\<rparr>)
     103 7 ''gpt-4'' 0 1 3 = Some (Saturated RPD) \<and>
   memory_rpm_reached (memoryRPMStore busy_memory (memory_key 7 ''gpt-4'')) 103 3 \<and>
   memory_count_reached (memoryTPMStore busy_memory (memory_key 7 ''gpt-4'')) 103 9000 \<and>
   memory_count_reached (memoryRPDStore busy_memory (memory_key 7 ''gpt-4'')) 103 3 \<and>
   checkChannelRateLimitMemory busy_memory 103 7 ''gpt-4'' 3 9000 3 = Some (Saturated RPM) \<and>
   checkChannelRateLimitMemory
     (busy_memory\<lparr>memoryTPMStore := Map.empty, memoryRPDStore := Map.empty\<rparr>) 103 7 ''gpt-4'' 3 1 1 =
     Some (Saturated RPM) \<and>
   checkChannelRateLimitMemory busy_memory 103 7 ''gpt-4'' 0 9000 3 = Some (Saturated TPM) \<and>
   checkChannelRateLimitMemory (busy_memory\<lparr>memoryRPDStore := Map.empty\<rparr>) 103 7 ''gpt-4'' 0 9000 1 =
     Some (Saturated TPM)"
proof -
  let ?r = "failing_reads\<lparr>fails := (\<lambda>cmd key. False)\<rparr>"
  let ?r1 = "failing_reads\<lparr>fails := (\<lambda>cmd key. cmd = CmdGet)\<rparr>"
  let ?r2 = "failing_reads\<lparr>fails := (\<lambda>cmd key. key = redis_key ChannelTPMPrefix 7 ''gpt-4'')\<rparr>"
  let ?m1 = "busy_memory\<lparr>memoryTPMStore := Map.empty, memoryRPDStore := Map.empty\<rparr>"
  let ?m2 = "busy_memory\<lparr>memoryRPDStore := Map.empty\<rparr>"
  have reached: "redis_rpm_reached (redis_rpm_data ?r 7 ''gpt-4'') 103 3"
    "redis_count_reached (redis_count_data ?r ChannelRPDPrefix 7 ''gpt-4'') 103 3"
    "redis_count_reached (redis_count_data ?r ChannelTPMPrefix 7 ''gpt-4'') 103 9000"
    "\<not> redis_rpm_reached (redis_rpm_data ?r 7 ''gpt-4'') 103 0"
    "memory_rpm_reached (memoryRPMStore busy_memory (memory_key 7 ''gpt-4'')) 103 3"
    "memory_count_reached (memoryTPMStore busy_memory (memory_key 7 ''gpt-4'')) 103 9000"
    "memory_count_reached (memoryRPDStore busy_memory (memory_key 7 ''gpt-4'')) 103 3"
    "\<not> memory_rpm_reached (memoryRPMStore busy_memory (memory_key 7 ''gpt-4'')) 103 0"
    by (simp_all add: failing_reads_def busy_memory_def redis_rpm_reached_def redis_rpm_data_def
        redis_count_reached_def redis_count_data_def unexpired_def memory_rpm_reached_def
        memory_count_reached_def redis_key_prefix)
  have same: "redis_rpm_data ?r1 7 ''gpt-4'' = redis_rpm_data ?r 7 ''gpt-4''"
    "redis_rpm_data ?r2 7 ''gpt-4'' = redis_rpm_data ?r 7 ''gpt-4''"
    "redis_count_data ?r2 ChannelRPDPrefix 7 ''gpt-4'' = redis_count_data ?r ChannelRPDPrefix 7 ''gpt-4''"
    "memoryRPMStore ?m1 (memory_key 7 ''gpt-4'') = memoryRPMStore busy_memory (memory_key 7 ''gpt-4'')"
    "memoryRPMStore ?m2 (memory_key 7 ''gpt-4'') = memoryRPMStore busy_memory (memory_key 7 ''gpt-4'')"
    "memoryTPMStore ?m2 (memory_key 7 ''gpt-4'') = memoryTPMStore busy_memory (memory_key 7 ''gpt-4'')"
    by (simp_all add: redis_rpm_data_def redis_count_data_def redis_key_prefix)
  from check_order [of ?r 103 7 "''gpt-4''" 3 9000 3 busy_memory ?r1 1 1 ?m1]
    check_order [of ?r 103 7 "''gpt-4''" 0 9000 3 busy_memory ?r2 1 1 ?m2]
    reached same
  show ?thesis by simp
qed

subsection \<open>Record writes the RPM history\<close>

text \<open>
  Claim C3 says that every Record writes the RPM history and caps it, also without an RPM
  limit. The file has two copies of Record. The first (lines 94-107 and 190-215) does as
  the claim says. The second (lines 363-373 and 465-477) records under \<open>if rpm > 0\<close>
  only: with \<open>rpm = 0\<close> neither of its backends writes anything, and with a limit of 2
  its memory backend keeps three timestamps of one minute.
\<close>

theorem record_rpm_history_counterexample:
  "db (recordChannelRateLimitRedis_2 empty_rdb 100 7 ''gpt-4'' 0 0 0 9)
      (redis_key ChannelRPMPrefix 7 ''gpt-4'') = None \<and>
   memoryRPMStore (recordChannelRateLimitMemory_2 empty_memory 100 7 ''gpt-4'' 0 0 0 9)
      (memory_key 7 ''gpt-4'') = None \<and>
   memoryRPMStore
      (recordChannelRateLimitMemory_2
         (recordChannelRateLimitMemory_2
            (recordChannelRateLimitMemory_2 empty_memory 100 7 ''gpt-4'' 2 0 0 9)
            101 7 ''gpt-4'' 2 0 0 9)
         102 7 ''gpt-4'' 2 0 0 9)
      (memory_key 7 ''gpt-4'') = Some [100, 101, 102]"
  by (simp add: recordChannelRateLimitRedis_2_rpm_key recordChannelRateLimitMemory_2_def
      empty_rdb_def empty_memory_def)

text \<open>
  Claim C3, amended. In the first copy every Record writes the RPM history, whatever the
  limit: the memory backend stores the young timestamps and \<open>now\<close>, cut to the last
  \<open>rpm\<close> entries (1000 without a limit); the Redis backend, when its push and its trim
  are executed on a key that holds a list or nothing, stores \<open>now\<close> before the old list,
  cut to the first \<open>rpm\<close> entries (1000 without a limit). In the second copy a Record
  with \<open>rpm \<le> 0\<close> leaves the RPM history as it is; with \<open>rpm > 0\<close> the Redis backend
  does as in the first copy and the memory backend stores the young timestamps and
  \<open>now\<close>, uncut.
\<close>

theorem record_rpm_history:
  "(\<exists>m' w. recordChannelRateLimitMemory m now channelId modelName rpm tpm rpd tokens = Inr m' \<and>
      memoryRPMStore m' (memory_key channelId modelName) = Some w \<and>
      w = recorded_window rpm now
            (case memoryRPMStore m (memory_key channelId modelName) of None \<Rightarrow> [] | Some ts \<Rightarrow> ts) \<and>
      w \<noteq> [] \<and> last w = now \<and> int (length w) \<le> (if rpm \<le> 0 then 1000 else rpm)) \<and>
   (\<not> fails r CmdLPush (redis_key ChannelRPMPrefix channelId modelName) \<and>
    \<not> fails r CmdLTrim (redis_key ChannelRPMPrefix channelId modelName) \<and>
    list_at r now (redis_key ChannelRPMPrefix channelId modelName) = Some xs \<longrightarrow>
      list_at (recordChannelRateLimitRedis r now channelId modelName rpm tpm rpd tokens) now
          (redis_key ChannelRPMPrefix channelId modelName) =
        Some (take (nat (if rpm \<le> 0 then 1000 else rpm)) (now # xs)) \<and>
      (rpm > 0 \<longrightarrow>
         list_at (recordChannelRateLimitRedis_2 r now channelId modelName rpm tpm rpd tokens) now
             (redis_key ChannelRPMPrefix channelId modelName) =
           Some (take (nat rpm) (now # xs)))) \<and>
   (rpm \<le> 0 \<longrightarrow>
      db (recordChannelRateLimitRedis_2 r now channelId modelName rpm tpm rpd tokens)
          (redis_key ChannelRPMPrefix channelId modelName) =
        db r (redis_key ChannelRPMPrefix channelId modelName) \<and>
      memoryRPMStore (recordChannelRateLimitMemory_2 m now channelId modelName rpm tpm rpd tokens) =
        memoryRPMStore m) \<and>
   (rpm > 0 \<longrightarrow>
      memoryRPMStore (recordChannelRateLimitMemory_2 m now channelId modelName rpm tpm rpd tokens)
          (memory_key channelId modelName) =
        Some (filter (\<lambda>ts. now - ts < 60)
                (case memoryRPMStore m (memory_key channelId modelName) of None \<Rightarrow> [] | Some ts \<Rightarrow> ts)
              @ [now]))"
proof -
  let ?key = "redis_key ChannelRPMPrefix channelId modelName"
  have mem1: "\<exists>m' w. recordChannelRateLimitMemory m now channelId modelName rpm tpm rpd tokens = Inr m' \<and>
      memoryRPMStore m' (memory_key channelId modelName) = Some w \<and>
      w = recorded_window rpm now
            (case memoryRPMStore m (memory_key channelId modelName) of None \<Rightarrow> [] | Some ts \<Rightarrow> ts) \<and>
      w \<noteq> [] \<and> last w = now \<and> int (length w) \<le> (if rpm \<le> 0 then 1000 else rpm)"
    using recorded_window_props [of rpm now]
    by (simp add: recordChannelRateLimitMemory_Inr)
  have redis1: "list_at (recordChannelRateLimitRedis r now channelId modelName rpm tpm rpd tokens) now ?key =
        Some (take (nat (if rpm \<le> 0 then 1000 else rpm)) (now # xs))"
    if "\<not> fails r CmdLPush ?key" "\<not> fails r CmdLTrim ?key" "list_at r now ?key = Some xs"
  proof -
    have "list_at (recordChannelRateLimitRedis r now channelId modelName rpm tpm rpd tokens) now ?key =
          list_at (rpm_block r now ?key (if rpm \<le> 0 then 1000 else rpm)) now ?key"
      by (rule list_at_cong) (rule recordChannelRateLimitRedis_rpm_key)
    also have "\<dots> = Some (take (nat (if rpm \<le> 0 then 1000 else rpm)) (now # xs))"
      using that by (intro rpm_block_list) simp_all
    finally show ?thesis .
  qed
  have redis2: "list_at (recordChannelRateLimitRedis_2 r now channelId modelName rpm tpm rpd tokens) now ?key =
        Some (take (nat rpm) (now # xs))"
    if "\<not> fails r CmdLPush ?key" "\<not> fails r CmdLTrim ?key" "list_at r now ?key = Some xs" "rpm > 0"
  proof -
    have "list_at (recordChannelRateLimitRedis_2 r now channelId modelName rpm tpm rpd tokens) now ?key =
          list_at (rpm_block r now ?key rpm) now ?key"
      by (rule list_at_cong) (simp add: recordChannelRateLimitRedis_2_rpm_key that)
    also have "\<dots> = Some (take (nat rpm) (now # xs))"
      using that by (intro rpm_block_list) simp_all
    finally show ?thesis .
  qed
  have redis2': "db (recordChannelRateLimitRedis_2 r now channelId modelName rpm tpm rpd tokens) ?key =
        db r ?key" if "rpm \<le> 0"
    using that by (simp add: recordChannelRateLimitRedis_2_rpm_key)
  have mem2: "rpm \<le> 0 \<Longrightarrow>
      memoryRPMStore (recordChannelRateLimitMemory_2 m now channelId modelName rpm tpm rpd tokens) =
        memoryRPMStore m"
    by (simp add: recordChannelRateLimitMemory_2_def Let_def)
  have mem2': "rpm > 0 \<Longrightarrow>
      memoryRPMStore (recordChannelRateLimitMemory_2 m now channelId modelName rpm tpm rpd tokens)
          (memory_key channelId modelName) =
        Some (filter (\<lambda>ts. now - ts < 60)
                (case memoryRPMStore m (memory_key channelId modelName) of None \<Rightarrow> [] | Some ts \<Rightarrow> ts)
              @ [now])"
    by (simp add: recordChannelRateLimitMemory_2_def Let_def keep_recent_filter)
  from mem1 redis1 redis2 redis2' mem2 mem2' show ?thesis by blast
qed

text \<open>
  A Record at 103 on the list 102, 101, 100 of \<open>failing_reads\<close> (its commands working):
  without a limit the list grows to four entries, with a limit of 2 it is cut to two. The
  same for the window of \<open>busy_memory\<close>.
\<close>

theorem record_rpm_history_witness:
  "list_at (failing_reads\<lparr>fails := (\<lambda>cmd key. False)\<rparr>) 103 (redis_key ChannelRPMPrefix 7 ''gpt-4'') =
     Some [102, 101, 100] \<and>
   list_at (recordChannelRateLimitRedis (failing_reads\<lparr>fails := (\<lambda>cmd key. False)\<rparr>)
              103 7 ''gpt-4'' 0 0 0 9) 103 (redis_key ChannelRPMPrefix 7 ''gpt-4'') =
     Some [103, 102, 101, 100] \<and>
   list_at (recordChannelRateLimitRedis (failing_reads\<lparr>fails := (\<lambda>cmd key. False)\<rparr>)
              103 7 ''gpt-4'' 2 0 0 9) 103 (redis_key ChannelRPMPrefix 7 ''gpt-4'') =
     Some [103, 102] \<and>
   (\<exists>m'. recordChannelRateLimitMemory busy_memory 103 7 ''gpt-4'' 0 0 0 9 = Inr m' \<and>
      memoryRPMStore m' (memory_key 7 ''gpt-4'') = Some [100, 101, 102, 103]) \<and>
   (\<exists>m'. recordChannelRateLimitMemory busy_memory 103 7 ''gpt-4'' 2 0 0 9 = Inr m' \<and>
      memoryRPMStore m' (memory_key 7 ''gpt-4'') = Some [102, 103])"
  using record_rpm_history [of busy_memory 103 7 "''gpt-4''" 0 0 0 9
      "failing_reads\<lparr>fails := (\<lambda>cmd key. False)\<rparr>" "[102, 101, 100]"]
    record_rpm_history [of busy_memory 103 7 "''gpt-4''" 2 0 0 9
      "failing_reads\<lparr>fails := (\<lambda>cmd key. False)\<rparr>" "[102, 101, 100]"]
  by (simp add: failing_reads_def busy_memory_def list_at_def live_def recorded_window_def
      redis_key_prefix)

subsection \<open>The RPM window slides\<close>

text \<open>
  Two Records for a pair with no history, 30 seconds apart, whatever the store's commands
  do: the Redis key holds nothing, or one of the two timestamps, or both.
\<close>

lemma rpm_block_first:
  assumes "held r key = None" "0 < limit"
  shows "held (rpm_block r t key limit) key \<in> {None, Some (RList [t])}"
proof -
  let ?r1 = "snd (LPush r t key t)"
  have 1: "held ?r1 key \<in> {None, Some (RList [t])}"
    using LPush_held [of r t key t] assms(1) by auto
  have "0 \<le> limit - 1" using assms(2) by simp
  from LTrim_held [OF this, of ?r1 t key] 1
  have "held (snd (LTrim ?r1 t key 0 (limit - 1))) key \<in> {None, Some (RList [t])}"
    by auto
  then show ?thesis by (simp add: rpm_block_def Expire_held)
qed

lemma rpm_block_second:
  assumes "held r key \<in> {None, Some (RList [t])}" "0 < limit"
  shows "held (rpm_block r t' key limit) key \<in>
           {None, Some (RList [t]), Some (RList [t']), Some (RList [t', t])}"
proof -
  let ?r1 = "snd (LPush r t' key t')"
  have 1: "held ?r1 key \<in> {None, Some (RList [t]), Some (RList [t']), Some (RList [t', t])}"
    using LPush_held [of r t' key t'] assms(1) by auto
  have "0 \<le> limit - 1" using assms(2) by simp
  from LTrim_held [OF this, of ?r1 t' key] 1
  have "held (snd (LTrim ?r1 t' key 0 (limit - 1))) key \<in>
          {None, Some (RList [t]), Some (RList [t']), Some (RList [t', t])}"
    by (auto simp: take_Cons' split: if_splits)
  then show ?thesis by (simp add: rpm_block_def Expire_held)
qed

lemma check_redis_aged:
  assumes "held r (redis_key ChannelRPMPrefix channelId modelName) \<in>
             {None, Some (RList [t]), Some (RList [t + 30]), Some (RList [t + 30, t])}"
  shows "\<not> (case LLen r (t + 61) (redis_key ChannelRPMPrefix channelId modelName) of
              Inl err \<Rightarrow> False
            | Inr lenVal \<Rightarrow>
                2 \<le> lenVal \<and>
                (case LIndex r (t + 61) (redis_key ChannelRPMPrefix channelId modelName) (- 1) of
                   Inl err \<Rightarrow> False
                 | Inr oldTimeVal \<Rightarrow> t + 61 - oldTimeVal < 60))"
  using assms
  by (auto simp: held_def LLen_def LIndex_def Let_def dest!: live_Some_db
      split: option.splits redis_value.splits sum.splits if_splits)


lemma window_first: "recorded_window rpm t [] = [t]"
  by (simp add: recorded_window_def)

lemma window_second:
  "recorded_window rpm (t + 30) [t] = (if rpm = 1 then [t + 30] else [t, t + 30])"
proof (cases "rpm = 1")
  case True
  then show ?thesis by (simp add: recorded_window_def)
next
  case False
  then have "2 - nat (if rpm \<le> 0 then 1000 else rpm) = 0" by auto
  with False show ?thesis by (simp add: recorded_window_def)
qed

lemma check_memory_aged:
  assumes "memoryRPMStore m (memory_key channelId modelName) = Some w"
    and "w = [t + 30] \<or> w = [t, t + 30]"
  shows "checkChannelRateLimitMemory m (t + 61) channelId modelName 2 tpm rpd \<noteq> Some (Saturated RPM) \<and>
         (tpm \<le> 0 \<and> rpd \<le> 0 \<longrightarrow>
            checkChannelRateLimitMemory m (t + 61) channelId modelName 2 tpm rpd = None)"
  using assms by (auto simp: checkChannelRateLimitMemory_def Let_def)

text \<open>
  Claim C4. For a pair with no RPM history, in either backend: after a Record at \<open>t\<close> and
  a Record at \<open>t + 30\<close>, with any limits and tokens, a Check at \<open>t + 61\<close> with an RPM
  limit of 2 does not return at the RPM statement, and returns no error when the other two
  dimensions have no limit. When both Records carry the limit 2 (and the Redis store
  executes its commands), the stored sequence still holds both timestamps at \<open>t + 61\<close>.
  Failing commands of the Redis store do not change the verdict.
\<close>

theorem rpm_window_slides:
  assumes "no_rpm_history s channelId modelName"
  shows "\<exists>verdict s'.
           run s [(t, Record channelId modelName rpm1 tpm1 rpd1 tokens1),
                  (t + 30, Record channelId modelName rpm2 tpm2 rpd2 tokens2),
                  (t + 61, Check channelId modelName 2 tpm rpd)] =
             ([Recorded, Recorded, Checked verdict], s') \<and>
           verdict \<noteq> Some (Saturated RPM) \<and>
           (tpm \<le> 0 \<and> rpd \<le> 0 \<longrightarrow> verdict = None) \<and>
           (rpm1 = 2 \<and> rpm2 = 2 \<and> healthy (RDB s) \<longrightarrow>
              stored_rpm s' (t + 61) channelId modelName =
                (if RedisEnabled s then [t + 30, t] else [t, t + 30]))"
proof -
  let ?R1 = "Record channelId modelName rpm1 tpm1 rpd1 tokens1"
  let ?R2 = "Record channelId modelName rpm2 tpm2 rpd2 tokens2"
  let ?s1 = "snd (exec s t ?R1)"
  let ?s2 = "snd (exec ?s1 (t + 30) ?R2)"
  let ?verdict = "CheckChannelRateLimit ?s2 (t + 61) channelId modelName 2 tpm rpd"
  have run: "run s [(t, ?R1), (t + 30, ?R2), (t + 61, Check channelId modelName 2 tpm rpd)] =
               ([Recorded, Recorded, Checked ?verdict], ?s2)"
    by (simp only: run_Record run_Check fst_conv snd_conv)
  have "?verdict \<noteq> Some (Saturated RPM) \<and>
        (tpm \<le> 0 \<and> rpd \<le> 0 \<longrightarrow> ?verdict = None) \<and>
        (rpm1 = 2 \<and> rpm2 = 2 \<and> healthy (RDB s) \<longrightarrow>
           stored_rpm ?s2 (t + 61) channelId modelName =
             (if RedisEnabled s then [t + 30, t] else [t, t + 30]))"
  proof (cases "RedisEnabled s")
    case False
    with assms have none: "memoryRPMStore (mem s) (memory_key channelId modelName) = None"
      by (simp add: no_rpm_history_def)
    have e1: "\<not> RedisEnabled ?s1" using False by (simp add: exec_Record_memory)
    have w: "memoryRPMStore (mem ?s2) (memory_key channelId modelName) =
               Some (if rpm2 = 1 then [t + 30] else [t, t + 30])"
      using False none by (simp add: exec_Record_memory window_first window_second)
    have e2: "\<not> RedisEnabled ?s2" using e1 by (simp add: exec_Record_memory)
    have "?verdict = checkChannelRateLimitMemory (mem ?s2) (t + 61) channelId modelName 2 tpm rpd"
      using e2 by (simp only: CheckChannelRateLimit_def if_False)
    with check_memory_aged [OF w, of t tpm rpd]
    have v: "?verdict \<noteq> Some (Saturated RPM) \<and> (tpm \<le> 0 \<and> rpd \<le> 0 \<longrightarrow> ?verdict = None)"
      by simp
    have st: "stored_rpm ?s2 (t + 61) channelId modelName = [t, t + 30]" if "rpm2 = 2"
      using w e2 that by (simp only: stored_rpm_def if_False option.case) simp
    from False have "(if RedisEnabled s then [t + 30, t] else [t, t + 30]) = [t, t + 30]" by simp
    with v st show ?thesis by (simp only:) blast
  next
    case True
    let ?key = "redis_key ChannelRPMPrefix channelId modelName"
    let ?r1 = "recordChannelRateLimitRedis (RDB s) t channelId modelName rpm1 tpm1 rpd1 tokens1"
    let ?r2 = "recordChannelRateLimitRedis ?r1 (t + 30) channelId modelName rpm2 tpm2 rpd2 tokens2"
    from assms True have none: "db (RDB s) ?key = None"
      by (simp add: no_rpm_history_def)
    have s2: "?s2 = s\<lparr>RDB := ?r2\<rparr>" using True by (simp add: exec_Record_redis)
    have "held ?r1 ?key = held (rpm_block (RDB s) t ?key (if rpm1 \<le> 0 then 1000 else rpm1)) ?key"
      by (rule held_cong) (rule recordChannelRateLimitRedis_rpm_key)
    moreover have "held (RDB s) ?key = None" using none by (simp add: held_def)
    ultimately have h1: "held ?r1 ?key \<in> {None, Some (RList [t])}"
      using rpm_block_first [of "RDB s" ?key "if rpm1 \<le> 0 then 1000 else rpm1" t] by simp
    have "held ?r2 ?key = held (rpm_block ?r1 (t + 30) ?key (if rpm2 \<le> 0 then 1000 else rpm2)) ?key"
      by (rule held_cong) (rule recordChannelRateLimitRedis_rpm_key)
    with rpm_block_second [OF h1, of "if rpm2 \<le> 0 then 1000 else rpm2" "t + 30"]
    have h2: "held ?r2 ?key \<in>
                {None, Some (RList [t]), Some (RList [t + 30]), Some (RList [t + 30, t])}"
      by simp
    have v: "?verdict \<noteq> Some (Saturated RPM) \<and> (tpm \<le> 0 \<and> rpd \<le> 0 \<longrightarrow> ?verdict = None)"
      using check_redis_aged [OF h2] True
      by (simp add: s2 CheckChannelRateLimit_def checkChannelRateLimitRedis_def Let_def)
    have st: "stored_rpm ?s2 (t + 61) channelId modelName = [t + 30, t]"
      if "rpm1 = 2" "rpm2 = 2" "healthy (RDB s)"
    proof -
      from that(3) have f: "fails (RDB s) = (\<lambda>_ _. False)" by (simp add: healthy_def)
      have "list_at (RDB s) t ?key = Some []" using none by (simp add: list_at_def live_def)
      with f have "db (rpm_block (RDB s) t ?key 2) ?key =
          Some \<lparr>content = RList (take (nat 2) [t]), expire_at = Some (t + 60)\<rparr>"
        by (intro rpm_block_entry) simp_all
      then have d1: "db ?r1 ?key = Some \<lparr>content = RList [t], expire_at = Some (t + 60)\<rparr>"
        using that(1) by (simp add: recordChannelRateLimitRedis_rpm_key)
      have f1: "fails ?r1 = (\<lambda>_ _. False)" using f by (simp add: recordChannelRateLimitRedis_fails)
      have "list_at ?r1 (t + 30) ?key = Some [t]" using d1 by (simp add: list_at_def live_def)
      with f1 have "db (rpm_block ?r1 (t + 30) ?key 2) ?key =
          Some \<lparr>content = RList (take (nat 2) [t + 30, t]), expire_at = Some (t + 30 + 60)\<rparr>"
        by (intro rpm_block_entry) simp_all
      then have "db ?r2 ?key = Some \<lparr>content = RList [t + 30, t], expire_at = Some (t + 90)\<rparr>"
        using that(2) by (simp add: recordChannelRateLimitRedis_rpm_key)
      then show ?thesis using True by (simp add: s2 stored_rpm_def live_def)
    qed
    from True have "(if RedisEnabled s then [t + 30, t] else [t, t + 30]) = [t + 30, t]" by simp
    with v st show ?thesis by (simp only:) blast
  qed
  with run show ?thesis by blast
qed

text \<open>
  Records at 1000 and 1030: a Check with limit 2 is saturated at 1059 and passes at 1061.
\<close>

theorem rpm_window_slides_witness:
  "no_rpm_history memory_limiter 7 ''gpt-4'' \<and>
   fst (run memory_limiter
          [(1000, Record 7 ''gpt-4'' 2 0 0 0), (1030, Record 7 ''gpt-4'' 2 0 0 0),
           (1061, Check 7 ''gpt-4'' 2 0 0)]) = [Recorded, Recorded, Checked None] \<and>
   fst (run memory_limiter
          [(1000, Record 7 ''gpt-4'' 2 0 0 0), (1030, Record 7 ''gpt-4'' 2 0 0 0),
           (1059, Check 7 ''gpt-4'' 2 0 0)]) = [Recorded, Recorded, Checked (Some (Saturated RPM))] \<and>
   no_rpm_history redis_limiter 7 ''gpt-4'' \<and>
   fst (run redis_limiter
          [(1000, Record 7 ''gpt-4'' 2 0 0 0), (1000 + 30, Record 7 ''gpt-4'' 2 0 0 0),
           (1000 + 61, Check 7 ''gpt-4'' 2 0 0)]) = [Recorded, Recorded, Checked None]"
proof -
  have m: "no_rpm_history memory_limiter 7 ''gpt-4''"
    by (simp add: no_rpm_history_def memory_limiter_def empty_memory_def)
  have r: "no_rpm_history redis_limiter 7 ''gpt-4''"
    by (simp add: no_rpm_history_def redis_limiter_def empty_rdb_def)
  have "fst (run redis_limiter
          [(1000, Record 7 ''gpt-4'' 2 0 0 0), (1000 + 30, Record 7 ''gpt-4'' 2 0 0 0),
           (1000 + 61, Check 7 ''gpt-4'' 2 0 0)]) = [Recorded, Recorded, Checked None]"
    using rpm_window_slides [OF r, of 1000 2 0 0 0 2 0 0 0 0 0] by auto
  moreover have "fst (run memory_limiter
          [(1000, Record 7 ''gpt-4'' 2 0 0 0), (1030, Record 7 ''gpt-4'' 2 0 0 0),
           (1061, Check 7 ''gpt-4'' 2 0 0)]) = [Recorded, Recorded, Checked None]"
    by (simp add: memory_run_simps)
  moreover have "fst (run memory_limiter
          [(1000, Record 7 ''gpt-4'' 2 0 0 0), (1030, Record 7 ''gpt-4'' 2 0 0 0),
           (1059, Check 7 ''gpt-4'' 2 0 0)]) = [Recorded, Recorded, Checked (Some (Saturated RPM))]"
    by (simp add: memory_run_simps)
  ultimately show ?thesis using m r by blast
qed

subsection \<open>Expired counters\<close>

text \<open>
  Claim C5 says that the next Record replaces an expired TPM or RPD counter. For TPM that
  holds for a Record with tokens: a Record with \<open>tokens = 0\<close> skips the TPM block (line
  218) and leaves the expired counter as it is. In \<open>busy_memory\<close> the TPM counter expired
  at 160; after a Record at 200 with no tokens it is still the old pair.
\<close>

theorem expired_tpm_kept_counterexample:
  "memoryTPMStore (mem busy_limiter) (memory_key 7 ''gpt-4'') = Some \<lparr>Count = 9000, Expiration = 160\<rparr> \<and>
   (160 :: int) \<le> 200 \<and>
   memoryTPMStore (mem (snd (run busy_limiter [(200, Record 7 ''gpt-4'' 0 0 0 0)])))
     (memory_key 7 ''gpt-4'') = Some \<lparr>Count = 9000, Expiration = 160\<rparr>"
  by (simp add: busy_limiter_def busy_memory_def memory_run_simps)

text \<open>
  Claim C5, amended. In the memory backend a TPM or RPD counter whose expiration is at or
  before \<open>now\<close> is read as if it were absent: Check returns what it returns without the
  counter, never at that dimension's statement, and GetUsage returns 0 for it. The next
  Record replaces an expired RPD counter by \<open>(1, now + 24 * 3600)\<close>; it replaces an expired
  TPM counter by \<open>(tokens, now + 60)\<close> when \<open>tokens > 0\<close> and leaves it as it is otherwise.
  It never adds to the expired count.
\<close>

theorem expired_counter_memory:
  "(memoryTPMStore m (memory_key channelId modelName) = Some item \<and> Expiration item \<le> now \<longrightarrow>
      checkChannelRateLimitMemory m now channelId modelName rpm tpm rpd =
        checkChannelRateLimitMemory
          (m\<lparr>memoryTPMStore := (memoryTPMStore m)(memory_key channelId modelName := None)\<rparr>)
          now channelId modelName rpm tpm rpd \<and>
      checkChannelRateLimitMemory m now channelId modelName rpm tpm rpd \<noteq> Some (Saturated TPM) \<and>
      fst (snd (getChannelRateLimitUsageMemory m now channelId modelName)) = 0 \<and>
      (\<exists>m'. recordChannelRateLimitMemory m now channelId modelName rpm tpm rpd tokens = Inr m' \<and>
         memoryTPMStore m' (memory_key channelId modelName) =
           (if tokens > 0 then Some \<lparr>Count = tokens, Expiration = now + 60\<rparr> else Some item))) \<and>
   (memoryRPDStore m (memory_key channelId modelName) = Some item \<and> Expiration item \<le> now \<longrightarrow>
      checkChannelRateLimitMemory m now channelId modelName rpm tpm rpd =
        checkChannelRateLimitMemory
          (m\<lparr>memoryRPDStore := (memoryRPDStore m)(memory_key channelId modelName := None)\<rparr>)
          now channelId modelName rpm tpm rpd \<and>
      checkChannelRateLimitMemory m now channelId modelName rpm tpm rpd \<noteq> Some (Saturated RPD) \<and>
      snd (snd (getChannelRateLimitUsageMemory m now channelId modelName)) = 0 \<and>
      (\<exists>m'. recordChannelRateLimitMemory m now channelId modelName rpm tpm rpd tokens = Inr m' \<and>
         memoryRPDStore m' (memory_key channelId modelName) =
           Some \<lparr>Count = 1, Expiration = now + 24 * 3600\<rparr>))"
  by (auto simp: checkChannelRateLimitMemory_def getChannelRateLimitUsageMemory_def
      recordChannelRateLimitMemory_Inr record_count_def Let_def)

text \<open>
  The TPM counter of \<open>busy_memory\<close>, 9000 tokens until 160: at 159 it saturates a limit of
  9000, at 200 it does not, and a Record of 25 tokens at 200 starts a window of 25.
\<close>

theorem expired_counter_memory_witness:
  "memoryTPMStore busy_memory (memory_key 7 ''gpt-4'') = Some \<lparr>Count = 9000, Expiration = 160\<rparr> \<and>
   Expiration \<lparr>Count = 9000, Expiration = 160\<rparr> \<le> 200 \<and>
   checkChannelRateLimitMemory busy_memory 200 7 ''gpt-4'' 0 9000 0 = None \<and>
   checkChannelRateLimitMemory busy_memory 159 7 ''gpt-4'' 0 9000 0 = Some (Saturated TPM) \<and>
   fst (snd (getChannelRateLimitUsageMemory busy_memory 200 7 ''gpt-4'')) = 0 \<and>
   (\<exists>m'. recordChannelRateLimitMemory busy_memory 200 7 ''gpt-4'' 0 9000 0 25 = Inr m' \<and>
      memoryTPMStore m' (memory_key 7 ''gpt-4'') = Some \<lparr>Count = 25, Expiration = 260\<rparr>)"
  using expired_counter_memory
    [of busy_memory 7 "''gpt-4''" "\<lparr>Count = 9000, Expiration = 160\<rparr>" 200 0 9000 0 25]
  by (simp add: busy_memory_def checkChannelRateLimitMemory_def)

subsection \<open>A limit of zero or less is no limit\<close>

text \<open>
  Claim C6. Whatever has been recorded (the state \<open>s\<close> is any state, with either
  backend), a Check whose limit for a dimension is zero or negative does not return at
  that dimension's return statement; with all three limits zero or negative it returns
  no error.
\<close>

theorem unlimited_dimension_never_saturates:
  "(rpm \<le> 0 \<longrightarrow> CheckChannelRateLimit s now channelId modelName rpm tpm rpd \<noteq> Some (Saturated RPM)) \<and>
   (tpm \<le> 0 \<longrightarrow> CheckChannelRateLimit s now channelId modelName rpm tpm rpd \<noteq> Some (Saturated TPM)) \<and>
   (rpd \<le> 0 \<longrightarrow> CheckChannelRateLimit s now channelId modelName rpm tpm rpd \<noteq> Some (Saturated RPD)) \<and>
   (rpm \<le> 0 \<and> tpm \<le> 0 \<and> rpd \<le> 0 \<longrightarrow>
      CheckChannelRateLimit s now channelId modelName rpm tpm rpd = None)"
  by (simp add: CheckChannelRateLimit_def checkChannelRateLimitMemory_def
      checkChannelRateLimitRedis_def Let_def)

text \<open>
  On \<open>busy_memory\<close>, three requests in the last minute saturate a limit of 3, and no limit
  at all lets the same state pass.
\<close>

theorem unlimited_dimension_never_saturates_witness:
  "(0::int) \<le> 0 \<and> (- 1::int) \<le> 0 \<and>
   CheckChannelRateLimit \<lparr>RedisEnabled = False, RDB = empty_rdb, mem = busy_memory\<rparr>
     103 7 ''gpt-4'' 0 (- 1) 0 = None \<and>
   CheckChannelRateLimit \<lparr>RedisEnabled = False, RDB = empty_rdb, mem = busy_memory\<rparr>
     103 7 ''gpt-4'' 3 0 0 = Some (Saturated RPM)"
  using unlimited_dimension_never_saturates
    [of 0 "\<lparr>RedisEnabled = False, RDB = empty_rdb, mem = busy_memory\<rparr>" 103 7 "''gpt-4''" "- 1" 0]
  by (simp add: CheckChannelRateLimit_def checkChannelRateLimitMemory_def busy_memory_def)

subsection \<open>The TPM counter is the sum of the tokens of its window\<close>

text \<open>
  Inside a window that ends at \<open>e\<close>, every Record with tokens adds them to the counter and
  leaves \<open>e\<close> as it is, as long as the sum stays inside 64 bits.
\<close>

lemma tokens_sum_nonneg: "\<forall>rec \<in> set recs. 0 < tokens_of rec \<Longrightarrow> 0 \<le> sum_list (map tokens_of recs)"
  by (induction recs) auto

lemma tpm_window_grows:
  assumes "\<not> RedisEnabled s"
    and "memoryTPMStore (mem s) (memory_key channelId modelName) = Some \<lparr>Count = a, Expiration = e\<rparr>"
    and "\<forall>rec \<in> set recs. 0 < tokens_of rec \<and> fst rec < e"
    and "0 < a" "a + sum_list (map tokens_of recs) \<le> max_int64"
  shows "\<not> RedisEnabled (snd (run s (record_calls channelId modelName recs))) \<and>
         memoryTPMStore (mem (snd (run s (record_calls channelId modelName recs))))
           (memory_key channelId modelName) =
         Some \<lparr>Count = a + sum_list (map tokens_of recs), Expiration = e\<rparr>"
  using assms
proof (induction recs arbitrary: s a)
  case Nil
  then show ?case by (simp add: record_calls_def)
next
  case (Cons rec recs)
  obtain now rpm tpm rpd tokens where rec: "rec = (now, rpm, tpm, rpd, tokens)"
    by (cases rec)
  let ?s' = "snd (exec s now (Record channelId modelName rpm tpm rpd tokens))"
  from Cons.prems rec have tok: "0 < tokens" and young: "now < e"
    by (simp_all add: tokens_of_def)
  have 1: "\<not> RedisEnabled ?s'"
    using Cons.prems(1) by (simp add: exec_Record_memory)
  have 3: "\<forall>rec \<in> set recs. 0 < tokens_of rec \<and> fst rec < e"
    using Cons.prems(3) by simp
  then have "0 \<le> sum_list (map tokens_of recs)" by (intro tokens_sum_nonneg) simp
  moreover have tr: "tokens_of rec = tokens" by (simp add: rec tokens_of_def)
  ultimately have hi: "a + tokens \<le> max_int64" using Cons.prems(5) by simp
  from Cons.prems(4) tok have lo: "min_int64 \<le> a + tokens" by (simp add: min_int64_def)
  have 2: "memoryTPMStore (mem ?s') (memory_key channelId modelName) =
             Some \<lparr>Count = a + tokens, Expiration = e\<rparr>"
    using Cons.prems(1,2) tok young
    by (simp add: exec_Record_memory record_count_def wrap64_id [OF lo hi])
  have 4: "0 < a + tokens" using Cons.prems(4) tok by simp
  have 5: "a + tokens + sum_list (map tokens_of recs) \<le> max_int64"
    using Cons.prems(5) tr by (simp add: add.assoc)
  have "run s (record_calls channelId modelName (rec # recs)) =
          (Recorded # fst (run ?s' (record_calls channelId modelName recs)),
           snd (run ?s' (record_calls channelId modelName recs)))"
    unfolding record_calls_def rec by (simp only: list.map prod.case run_Record)
  with Cons.IH [OF 1 2 3 4 5] tr show ?case
    by (simp add: add.assoc)
qed

lemma tpm_window_grows_redis:
  assumes "RedisEnabled s" "healthy (RDB s)"
    and "db (RDB s) (redis_key ChannelTPMPrefix channelId modelName) =
           Some \<lparr>content = RInt a, expire_at = Some e\<rparr>"
    and "0 < a"
    and "\<forall>rec \<in> set recs. 0 < tokens_of rec \<and> fst rec < e"
    and "a + sum_list (map tokens_of recs) \<le> max_int64"
  shows "healthy (RDB (snd (run s (record_calls channelId modelName recs)))) \<and>
         RedisEnabled (snd (run s (record_calls channelId modelName recs))) \<and>
         db (RDB (snd (run s (record_calls channelId modelName recs))))
            (redis_key ChannelTPMPrefix channelId modelName) =
           Some \<lparr>content = RInt (a + sum_list (map tokens_of recs)), expire_at = Some e\<rparr>"
  using assms
proof (induction recs arbitrary: s a)
  case Nil
  then show ?case by (simp add: record_calls_def)
next
  case (Cons rec recs)
  let ?kT = "redis_key ChannelTPMPrefix channelId modelName"
  obtain now rpm tpm rpd tokens where rec: "rec = (now, rpm, tpm, rpd, tokens)"
    by (cases rec)
  let ?s' = "snd (exec s now (Record channelId modelName rpm tpm rpd tokens))"
  from Cons.prems rec have tok: "0 < tokens" and young: "now < e"
    by (simp_all add: tokens_of_def)
  have s': "?s' = s\<lparr>RDB := recordChannelRateLimitRedis (RDB s) now channelId modelName rpm tpm rpd tokens\<rparr>"
    using Cons.prems(1) by (simp add: exec_Record_redis)
  have 1: "RedisEnabled ?s'" using Cons.prems(1) by (simp add: s')
  have 2: "healthy (RDB ?s')"
    using Cons.prems(2) by (simp add: s' healthy_def recordChannelRateLimitRedis_fails)
  have 5: "\<forall>rec \<in> set recs. 0 < tokens_of rec \<and> fst rec < e"
    using Cons.prems(5) by simp
  then have "0 \<le> sum_list (map tokens_of recs)" by (intro tokens_sum_nonneg) simp
  moreover have tr: "tokens_of rec = tokens" by (simp add: rec tokens_of_def)
  ultimately have hi: "a + tokens \<le> max_int64" using Cons.prems(6) by simp
  from Cons.prems(4) tok have lo: "min_int64 \<le> a + tokens" by (simp add: min_int64_def)
  have "live (RDB s) now ?kT = Some \<lparr>content = RInt a, expire_at = Some e\<rparr>"
    using Cons.prems(3) young by (simp add: live_def)
  from recordChannelRateLimitRedis_tpm_key(2) [OF Cons.prems(2) tok this _ _ lo hi, of rpm tpm rpd]
    Cons.prems(4)
  have 3: "db (RDB ?s') ?kT = Some \<lparr>content = RInt (a + tokens), expire_at = Some e\<rparr>"
    by (simp add: s')
  have 4: "0 < a + tokens" using Cons.prems(4) tok by simp
  have 6: "a + tokens + sum_list (map tokens_of recs) \<le> max_int64"
    using Cons.prems(6) tr by (simp add: add.assoc)
  have "run s (record_calls channelId modelName (rec # recs)) =
          (Recorded # fst (run ?s' (record_calls channelId modelName recs)),
           snd (run ?s' (record_calls channelId modelName recs)))"
    unfolding record_calls_def rec by (simp only: list.map prod.case run_Record)
  with Cons.IH [OF 1 2 3 4 5 6] tr show ?case
    by (simp add: add.assoc)
qed

text \<open>
  Claim C7 says that GetUsage returns as \<open>tpm\<close> the sum of the tokens recorded within one
  minute. The counter is an \<open>int64\<close> and \<open>item.Count += int64(tokens)\<close> wraps around: in
  the memory backend, with no TPM counter before, after Records of 9223372036854775807
  tokens at 100 and at 101, GetUsage at 102 returns a \<open>tpm\<close> of -2, and the sum of the
  tokens is 18446744073709551614.
\<close>

theorem tpm_sum_wraps_counterexample:
  "no_tpm_counter memory_limiter 1 ''m'' \<and>
   fst (snd (GetChannelRateLimitUsage
     (snd (run memory_limiter
        (record_calls 1 ''m''
           [(100, 0, 0, 0, 9223372036854775807), (101, 0, 0, 0, 9223372036854775807)])))
     102 1 ''m'')) = - 2 \<and>
   sum_list (map tokens_of
     [(100, 0, 0, 0, 9223372036854775807), (101 :: int, 0 :: int, 0 :: int, 0 :: int, 9223372036854775807)]) =
     18446744073709551614"
  by (simp add: no_tpm_counter_def record_calls_def tokens_of_def memory_run_simps)

text \<open>
  Claim C7, amended. In either backend (the Redis store executing its commands), for a
  pair with no TPM counter: after a non-empty list of Record calls with tokens above 0,
  each less than 60 seconds after the first call, and with a sum of the tokens of at most
  9223372036854775807 (\<open>max_int64\<close>), GetUsage returns as \<open>tpm\<close> the sum of the tokens as
  long as it is asked less than 60 seconds after the first call, and 0 from then on (as
  long as no Record follows). The limits the Records pass do not matter.
\<close>

theorem tpm_usage_is_token_sum:
  assumes "no_tpm_counter s channelId modelName"
    and "recs \<noteq> []"
    and "\<forall>rec \<in> set recs. 0 < tokens_of rec \<and> fst rec < fst (hd recs) + 60"
    and "sum_list (map tokens_of recs) \<le> max_int64"
  shows "fst (snd (GetChannelRateLimitUsage (snd (run s (record_calls channelId modelName recs)))
                     now channelId modelName)) =
           (if now < fst (hd recs) + 60 then sum_list (map tokens_of recs) else 0)"
proof -
  obtain rec rest where recs: "recs = rec # rest" using assms(2) by (cases recs) auto
  obtain t1 rpm tpm rpd tokens where rec: "rec = (t1, rpm, tpm, rpd, tokens)"
    by (cases rec)
  let ?s' = "snd (exec s t1 (Record channelId modelName rpm tpm rpd tokens))"
  from assms(3) recs rec have tok: "0 < tokens" by (simp add: tokens_of_def)
  have 3: "\<forall>rec \<in> set rest. 0 < tokens_of rec \<and> fst rec < t1 + 60"
    using assms(3) recs rec by simp
  have tr: "tokens_of rec = tokens" by (simp add: rec tokens_of_def)
  have bound: "tokens + sum_list (map tokens_of rest) \<le> max_int64"
    using assms(4) recs tr by simp
  have run: "run s (record_calls channelId modelName recs) =
          (Recorded # fst (run ?s' (record_calls channelId modelName rest)),
           snd (run ?s' (record_calls channelId modelName rest)))"
    unfolding record_calls_def recs rec by (simp only: list.map prod.case run_Record)
  show ?thesis
  proof (cases "RedisEnabled s")
    case False
    with assms(1) have none: "memoryTPMStore (mem s) (memory_key channelId modelName) = None"
      by (simp add: no_tpm_counter_def)
    have 1: "\<not> RedisEnabled ?s'"
      using False by (simp add: exec_Record_memory)
    have 2: "memoryTPMStore (mem ?s') (memory_key channelId modelName) =
               Some \<lparr>Count = tokens, Expiration = t1 + 60\<rparr>"
      using False none tok by (simp add: exec_Record_memory record_count_def)
    from tpm_window_grows [OF 1 2 3 tok bound] recs tr rec run show ?thesis
      by (simp add: GetChannelRateLimitUsage_def getChannelRateLimitUsageMemory_def Let_def)
  next
    case True
    let ?kT = "redis_key ChannelTPMPrefix channelId modelName"
    from True assms(1) have h: "healthy (RDB s)" and none: "db (RDB s) ?kT = None"
      by (simp_all add: no_tpm_counter_def)
    have s': "?s' = s\<lparr>RDB := recordChannelRateLimitRedis (RDB s) t1 channelId modelName rpm tpm rpd tokens\<rparr>"
      using True by (simp add: exec_Record_redis)
    have 1: "RedisEnabled ?s'" using True by (simp add: s')
    have 2: "healthy (RDB ?s')"
      using h by (simp add: s' healthy_def recordChannelRateLimitRedis_fails)
    have "live (RDB s) t1 ?kT = None" using none by (simp add: live_def)
    from recordChannelRateLimitRedis_tpm_key(1) [OF h tok this, of rpm tpm rpd]
    have 4: "db (RDB ?s') ?kT = Some \<lparr>content = RInt tokens, expire_at = Some (t1 + 60)\<rparr>"
      by (simp add: s')
    from tpm_window_grows_redis [OF 1 2 4 tok 3 bound] recs tr rec run show ?thesis
      by (simp add: GetChannelRateLimitUsage_def getChannelRateLimitUsageRedis_def
          Let_def Get_def live_def healthy_fails result_or_zero_def)
  qed
qed

text \<open>
  Records of 5, 7 and 11 tokens at 100, 130 and 159: GetUsage returns 23 at 159 and 0 at
  160.
\<close>

theorem tpm_usage_is_token_sum_witness:
  "no_tpm_counter memory_limiter 1 ''m'' \<and>
   [(100, 0, 0, 0, 5), (130, 0, 0, 0, 7), (159, 0, 0, 0, 11 :: int)] \<noteq> [] \<and>
   sum_list (map tokens_of [(100 :: int, 0 :: int, 0 :: int, 0 :: int, 5), (130, 0, 0, 0, 7), (159, 0, 0, 0, 11)])
     \<le> max_int64 \<and>
   fst (snd (GetChannelRateLimitUsage
     (snd (run memory_limiter (record_calls 1 ''m'' [(100, 0, 0, 0, 5), (130, 0, 0, 0, 7), (159, 0, 0, 0, 11)])))
     159 1 ''m'')) = 23 \<and>
   fst (snd (GetChannelRateLimitUsage
     (snd (run memory_limiter (record_calls 1 ''m'' [(100, 0, 0, 0, 5), (130, 0, 0, 0, 7), (159, 0, 0, 0, 11)])))
     160 1 ''m'')) = 0 \<and>
   no_tpm_counter redis_limiter 1 ''m'' \<and>
   fst (snd (GetChannelRateLimitUsage
     (snd (run redis_limiter (record_calls 1 ''m'' [(100, 0, 0, 0, 5), (130, 0, 0, 0, 7), (159, 0, 0, 0, 11)])))
     159 1 ''m'')) = 23"
  using tpm_usage_is_token_sum [of memory_limiter 1 "''m''" "[(100, 0, 0, 0, 5), (130, 0, 0, 0, 7), (159, 0, 0, 0, 11)]" 159]
    tpm_usage_is_token_sum [of memory_limiter 1 "''m''" "[(100, 0, 0, 0, 5), (130, 0, 0, 0, 7), (159, 0, 0, 0, 11)]" 160]
    tpm_usage_is_token_sum [of redis_limiter 1 "''m''" "[(100, 0, 0, 0, 5), (130, 0, 0, 0, 7), (159, 0, 0, 0, 11)]" 159]
  by (simp add: no_tpm_counter_def memory_limiter_def redis_limiter_def empty_memory_def
      empty_rdb_def healthy_def tokens_of_def max_int64_def)

subsection \<open>Check of the Redis backend fails open\<close>

text \<open>
  Claim C8. When a read of the Redis backend's Check returns an error (the length of the
  list or its oldest element for RPM, the counter for RPD or for TPM), Check does not
  return at that dimension's return statement. \<open>isl\<close> holds for an error of any kind:
  a command that failed, a key that is not there, a value of the wrong type. When every
  read fails, Check returns no error.
\<close>

theorem redis_check_fails_open:
  "(isl (LLen r now (redis_key ChannelRPMPrefix channelId modelName)) \<or>
    isl (LIndex r now (redis_key ChannelRPMPrefix channelId modelName) (- 1)) \<longrightarrow>
      checkChannelRateLimitRedis r now channelId modelName rpm tpm rpd \<noteq> Some (Saturated RPM)) \<and>
   (isl (Get r now (redis_key ChannelRPDPrefix channelId modelName)) \<longrightarrow>
      checkChannelRateLimitRedis r now channelId modelName rpm tpm rpd \<noteq> Some (Saturated RPD)) \<and>
   (isl (Get r now (redis_key ChannelTPMPrefix channelId modelName)) \<longrightarrow>
      checkChannelRateLimitRedis r now channelId modelName rpm tpm rpd \<noteq> Some (Saturated TPM)) \<and>
   ((\<forall>key. fails r CmdLLen key \<and> fails r CmdGet key) \<longrightarrow>
      checkChannelRateLimitRedis r now channelId modelName rpm tpm rpd = None)"
  by (auto simp: checkChannelRateLimitRedis_def Let_def LLen_def Get_def split: sum.splits)

text \<open>
  In \<open>failing_reads\<close> the list is full and young and both counters are at their limits:
  with the reads failing Check passes, with the reads working it is saturated.
\<close>

theorem redis_check_fails_open_witness:
  "isl (LIndex failing_reads 103 (redis_key ChannelRPMPrefix 7 ''gpt-4'') (- 1)) \<and>
   isl (Get failing_reads 103 (redis_key ChannelRPDPrefix 7 ''gpt-4'')) \<and>
   isl (Get failing_reads 103 (redis_key ChannelTPMPrefix 7 ''gpt-4'')) \<and>
   checkChannelRateLimitRedis failing_reads 103 7 ''gpt-4'' 3 9000 3 = None \<and>
   checkChannelRateLimitRedis (failing_reads\<lparr>fails := (\<lambda>cmd key. False)\<rparr>) 103 7 ''gpt-4'' 3 9000 3
     = Some (Saturated RPM)"
  using redis_check_fails_open [of failing_reads 103 7 "''gpt-4''" 3 9000 3]
  by (simp add: failing_reads_def checkChannelRateLimitRedis_def LLen_def LIndex_def Get_def
      live_def redis_key_prefix)

subsection \<open>Only Check returns an error\<close>

text \<open>
  Claim C9. In every script, from every state and with either backend, each call has the
  outcome of its kind: a Record ends with no result (it does not panic, whatever the
  store's commands do), a GetUsage returns three numbers, and a Saturated error is the
  outcome of a Check only.
\<close>

theorem only_check_saturates:
  "list_all2 answers (map snd script) (fst (run s script))"
proof (induction script arbitrary: s)
  case Nil
  show ?case by simp
next
  case (Cons a script)
  obtain now c where a: "a = (now, c)" by (cases a)
  obtain out s' where e: "exec s now c = (out, s')" by (cases "exec s now c")
  have ans: "answers c out" using exec_answers [of c s now] e by simp
  have np: "\<And>p. out \<noteq> Panicked p" using exec_not_Panicked [of s now c] e by simp
  obtain outs s'' where r: "run s' script = (outs, s'')" by (cases "run s' script")
  have "list_all2 answers (map snd script) outs" using Cons.IH [of s'] r by simp
  with ans np show ?case
    by (cases out) (simp_all add: a e r)
qed

text \<open>
  A Record, a Check that is saturated and a GetUsage on the memory backend: nothing, an
  error and three numbers.
\<close>

theorem only_check_saturates_witness:
  "fst (run memory_limiter
          [(0, Record 1 ''m'' 1 0 0 5), (1, Check 1 ''m'' 1 0 0), (2, GetUsage 1 ''m'')]) =
     [Recorded, Checked (Some (Saturated RPM)), Usage 1 5 1] \<and>
   list_all2 answers [Record 1 ''m'' 1 0 0 5, Check 1 ''m'' 1 0 0, GetUsage 1 ''m'']
     [Recorded, Checked (Some (Saturated RPM)), Usage 1 5 1]"
  using only_check_saturates
    [of "[(0, Record 1 ''m'' 1 0 0 5), (1, Check 1 ''m'' 1 0 0), (2, GetUsage 1 ''m'')]"
        memory_limiter]
  by (simp add: memory_run_simps)

subsection \<open>Record of the memory backend touches one key\<close>

text \<open>
  Claim C10. A Record of the memory backend for the pair (channelId, modelName) leaves the
  RPM window, the TPM counter and the RPD counter of every other pair as they were, in the
  first copy of the file and in the second.
\<close>

theorem record_memory_frame:
  assumes "(channelId', modelName') \<noteq> (channelId, modelName)"
  shows "(\<exists>m'. recordChannelRateLimitMemory m now channelId modelName rpm tpm rpd tokens = Inr m' \<and>
           memoryRPMStore m' (memory_key channelId' modelName') =
             memoryRPMStore m (memory_key channelId' modelName') \<and>
           memoryTPMStore m' (memory_key channelId' modelName') =
             memoryTPMStore m (memory_key channelId' modelName') \<and>
           memoryRPDStore m' (memory_key channelId' modelName') =
             memoryRPDStore m (memory_key channelId' modelName')) \<and>
         memoryRPMStore (recordChannelRateLimitMemory_2 m now channelId modelName rpm tpm rpd tokens)
             (memory_key channelId' modelName') =
           memoryRPMStore m (memory_key channelId' modelName') \<and>
         memoryTPMStore (recordChannelRateLimitMemory_2 m now channelId modelName rpm tpm rpd tokens)
             (memory_key channelId' modelName') =
           memoryTPMStore m (memory_key channelId' modelName') \<and>
         memoryRPDStore (recordChannelRateLimitMemory_2 m now channelId modelName rpm tpm rpd tokens)
             (memory_key channelId' modelName') =
           memoryRPDStore m (memory_key channelId' modelName')"
proof -
  from assms have "memory_key channelId' modelName' \<noteq> memory_key channelId modelName"
    by (simp add: memory_key_inj)
  then show ?thesis
    by (simp add: recordChannelRateLimitMemory_Inr recordChannelRateLimitMemory_2_def Let_def)
qed

text \<open>
  The pairs (1, "2:x") and (12, "x") are different and so are their keys, "1:2:x" and
  "12:x": a Record for the first leaves the second as it is in \<open>busy_memory\<close>, absent.
\<close>

theorem record_memory_frame_witness:
  "(12, ''x'') \<noteq> (1 :: int, ''2:x'') \<and>
   (\<exists>m'. recordChannelRateLimitMemory busy_memory 200 1 ''2:x'' 10 10 10 4 = Inr m' \<and>
      memoryRPMStore m' (memory_key 12 ''x'') = None \<and>
      memoryTPMStore m' (memory_key 12 ''x'') = None \<and>
      memoryRPDStore m' (memory_key 12 ''x'') = None) \<and>
   memoryRPMStore (recordChannelRateLimitMemory_2 busy_memory 200 1 ''2:x'' 10 10 10 4)
     (memory_key 12 ''x'') = None"
  using record_memory_frame [of 12 "''x''" 1 "''2:x''" busy_memory 200 10 10 10 4]
  by (simp add: busy_memory_def memory_key_inj)

end
